theory Spec2Isabelle
  imports Complex_Main
begin

section \<open>VoxelGenesis: the simulation core\<close>

text \<open>
  A shallow embedding of the simulation code of the component \<^verbatim>\<open>App\<close> (the file
  \<^verbatim>\<open>src/unnamed/part_000\<close>: brush handler, physics loop and life simulation loop) and
  of \<^verbatim>\<open>src/utils/gameUtils.ts\<close> (weather clock, terrain queries, evolution tree).
  Line numbers after \<open>App\<close> are lines of \<^verbatim>\<open>src/unnamed/part_000\<close>.

  Conventions of the embedding.
  \<^item> A JavaScript \<^verbatim>\<open>number\<close> is a \<^typ>\<open>real\<close>: rounding of doubles and of the
    \<^verbatim>\<open>Float32Array\<close> cells is not modelled. Integer-valued numbers that are only used
    as counters or indices (the tick counter, grid indices) are \<^typ>\<open>nat\<close> or \<^typ>\<open>int\<close>.
  \<^item> A typed array is a list; a write is \<open>xs[i := v]\<close>, made only after the range check
    the source makes.
  \<^item> Every call of \<^verbatim>\<open>Math.random()\<close> is an explicit argument (a record of draws), so
    a theorem about all draws is a theorem about every run.
  \<^item> React state that an updater function receives is passed explicitly and returned
    updated.
  \<^item> Record fields keep the source's names; \<open>x\<close>, \<open>y\<close>, \<open>z\<close>, \<open>id\<close>, \<open>type\<close> and
    \<open>size\<close> carry a suffix (\<open>_e\<close> entity, \<open>_n\<close> evolution node, \<open>_g\<close> geologic event,
    \<open>_t\<close> terrain).
\<close>

subsection \<open>Constants and types (gameUtils.ts; the types of src/unnamed/part_002)\<close>

definition MAP_SIZE :: nat where
  "MAP_SIZE = 128"

definition SEA_LEVEL :: real where
  "SEA_LEVEL = 1.0"

datatype Season = Spring | Summer | Autumn | Winter

record WeatherState =
  year :: nat
  season :: Season
  temperature :: real
  rainfall :: real
  isFreakEvent :: bool
  eventLabel :: "string option"

record TerrainData =
  size_t :: nat
  heights :: "real list"
  moisture :: "real list"
  vegetation :: "real list"

datatype EntityType = FISH | AMPHIBIAN | REPTILE | BIRD | MAMMAL | PRIMATE

datatype Diet = HERBIVORE | CARNIVORE | OMNIVORE

record Entity =
  id_e :: string
  type_e :: EntityType
  x_e :: real
  y_e :: real
  z_e :: real
  color :: string
  rotation :: "real option"
  vx :: "real option"
  vy :: "real option"
  vz :: "real option"
  targetX :: "real option"
  targetY :: "real option"
  targetZ :: "real option"
  homeX :: real
  homeZ :: real
  isMigrating :: "bool option"
  packId :: "string option"
  energy :: real
  maxEnergy :: real
  age :: real
  diet :: Diet

record VoxelData =
  x_v :: real
  y_v :: real
  z_v :: real
  color_v :: string
  type_v :: string

record EvolutionNode =
  id_n :: string
  title :: string
  hint :: string
  description :: string
  icon :: string
  parentId :: "string option"
  unlocksEntity :: "EntityType option"
  dustMultiplierBonus :: "real option"

subsection \<open>Weather clock: calculateWeather (gameUtils.ts 18-86)\<close>

definition TICKS_PER_DAY :: nat where
  "TICKS_PER_DAY = 30"

definition DAYS_PER_SEASON :: nat where
  "DAYS_PER_SEASON = 30"

definition SEASONS_PER_YEAR :: nat where
  "SEASONS_PER_YEAR = 4"

definition TICKS_PER_YEAR :: nat where
  "TICKS_PER_YEAR = TICKS_PER_DAY * DAYS_PER_SEASON * SEASONS_PER_YEAR"

definition TREND_CYCLE_YEARS :: nat where
  "TREND_CYCLE_YEARS = 10"

definition SEASONS :: "Season list" where
  "SEASONS = [Spring, Summer, Autumn, Winter]"

text \<open>The \<^verbatim>\<open>switch (currentSeason)\<close>: base temperature and base rainfall.\<close>

fun seasonBase :: "Season \<Rightarrow> real \<times> real" where
  "seasonBase Spring = (0.6, 0.7)"
| "seasonBase Summer = (0.8, 0.3)"
| "seasonBase Autumn = (0.5, 0.6)"
| "seasonBase Winter = (0.2, 0.5)"

text \<open>The hash of the day index that decides a freak-weather day.\<close>

definition isFreak :: "nat \<Rightarrow> bool" where
  "isFreak daySeed = ((daySeed * 9301 + 49297) mod 100 < 2)"

text \<open>
  The tick is the non-negative integer counter \<^verbatim>\<open>globalTick\<close>. The index
  \<open>seasonIndex\<close> is below 4 for every tick, so \<^verbatim>\<open>SEASONS[seasonIndex]\<close> is always
  a season.
\<close>

definition calculateWeather :: "nat \<Rightarrow> WeatherState" where
  "calculateWeather tick =
    (let year0 = tick div TICKS_PER_YEAR + 1;
         seasonIndex = (tick mod TICKS_PER_YEAR) div (TICKS_PER_DAY * DAYS_PER_SEASON);
         currentSeason = SEASONS ! seasonIndex;
         (baseTemp0, baseRain0) = seasonBase currentSeason;
         trendPhase = real (year0 mod TREND_CYCLE_YEARS) / real TREND_CYCLE_YEARS;
         trendMod = sin (trendPhase * pi * 2);
         baseTemp1 = baseTemp0 + trendMod * 0.15;
         baseRain1 = baseRain0 - trendMod * 0.1;
         dailyNoise = sin (real tick * 0.05) * 0.05;
         baseTemp2 = baseTemp1 + dailyNoise;
         daySeed = tick div TICKS_PER_DAY;
         freak = isFreak daySeed;
         ty = daySeed mod 3;
         baseTemp3 = (if freak then (if ty = 0 then baseTemp2 + 0.4
                                     else if ty = 1 then baseTemp2 - 0.4 else baseTemp2)
                      else baseTemp2);
         baseRain2 = (if freak \<and> ty \<noteq> 0 \<and> ty \<noteq> 1 then baseRain1 + 0.5 else baseRain1);
         label = (if freak then (if ty = 0 then Some ''Heatwave''
                                 else if ty = 1 then Some ''Cold Snap'' else Some ''Monsoon'')
                  else None)
     in \<lparr> year = year0,
          season = currentSeason,
          temperature = max 0 (min 1 baseTemp3),
          rainfall = max 0 (min 1 baseRain2),
          isFreakEvent = freak,
          eventLabel = label \<rparr>)"

subsection \<open>Evolution tree and its predicates (gameUtils.ts 236-297)\<close>

definition EVOLUTION_TREE :: "EvolutionNode list" where
  "EVOLUTION_TREE =
    [ \<lparr> id_n = ''origin_water'', title = ''Primordial Soup'',
        hint = ''The island edges are your cradle.'',
        description = ''Life begins in the deep blue.'', icon = ''Waves'',
        parentId = None, unlocksEntity = None, dustMultiplierBonus = Some 0.1 \<rparr>,
      \<lparr> id_n = ''origin_land'', title = ''Fertile Soil'',
        hint = ''Find the dry land.'',
        description = ''Dry land provides a foundation.'', icon = ''Mountain'',
        parentId = None, unlocksEntity = None, dustMultiplierBonus = Some 0.1 \<rparr>,
      \<lparr> id_n = ''flora_algae'', title = ''Algae Blooms'',
        hint = ''Water needs time.'',
        description = ''Simple plant life.'', icon = ''Droplets'',
        parentId = Some ''origin_water'', unlocksEntity = None,
        dustMultiplierBonus = Some 0.2 \<rparr>,
      \<lparr> id_n = ''flora_moss'', title = ''Vegetation'',
        hint = ''Ensure moisture touches land.'',
        description = ''Greenery covers the stone.'', icon = ''Sprout'',
        parentId = Some ''origin_land'', unlocksEntity = None,
        dustMultiplierBonus = Some 0.2 \<rparr>,
      \<lparr> id_n = ''flora_grass'', title = ''Dense Pastures'',
        hint = ''Increase rainfall on flat land.'',
        description = ''Vast fields of grass.'', icon = ''Leaf'',
        parentId = Some ''flora_moss'', unlocksEntity = None,
        dustMultiplierBonus = Some 0.5 \<rparr>,
      \<lparr> id_n = ''flora_tree'', title = ''Deep Roots'',
        hint = ''Maintain high moisture in grassy areas.'',
        description = ''Trees provide shelter.'', icon = ''TreePine'',
        parentId = Some ''flora_grass'', unlocksEntity = None,
        dustMultiplierBonus = Some 1.0 \<rparr>,
      \<lparr> id_n = ''flora_forest'', title = ''Ancient Canopy'',
        hint = ''A dense, wet ecosystem.'',
        description = ''A thriving forest.'', icon = ''Trees'',
        parentId = Some ''flora_tree'', unlocksEntity = None,
        dustMultiplierBonus = Some 2.0 \<rparr>,
      \<lparr> id_n = ''life_fish'', title = ''Ichthyology'',
        hint = ''Ensure ample ocean space.'',
        description = ''Fish now inhabit the waters.'', icon = ''Fish'',
        parentId = Some ''origin_water'', unlocksEntity = Some FISH,
        dustMultiplierBonus = None \<rparr>,
      \<lparr> id_n = ''life_amphibian'', title = ''The First Step'',
        hint = ''Create wet shorelines (transition zones).'',
        description = ''Amphibians venture onto muddy banks.'', icon = ''Footprints'',
        parentId = Some ''life_fish'', unlocksEntity = Some AMPHIBIAN,
        dustMultiplierBonus = None \<rparr>,
      \<lparr> id_n = ''life_reptile'', title = ''Scales & Sun'',
        hint = ''Create dry deserts (Low moisture land).'',
        description = ''Reptiles adapt to the dry land.'', icon = ''Sun'',
        parentId = Some ''life_amphibian'', unlocksEntity = Some REPTILE,
        dustMultiplierBonus = None \<rparr>,
      \<lparr> id_n = ''life_mammal'', title = ''Warm Blood'',
        hint = ''Create rich, lush grasslands.'',
        description = ''Mammals roam the plains.'', icon = ''PawPrint'',
        parentId = Some ''life_reptile'', unlocksEntity = Some MAMMAL,
        dustMultiplierBonus = None \<rparr>,
      \<lparr> id_n = ''life_bird'', title = ''Flight'',
        hint = ''Create high peaks and forests.'',
        description = ''Birds soar above.'', icon = ''Feather'',
        parentId = Some ''life_reptile'', unlocksEntity = Some BIRD,
        dustMultiplierBonus = None \<rparr> ]"

text \<open>
  A read of a typed array: \<^verbatim>\<open>undefined\<close> out of range. A comparison with
  \<^verbatim>\<open>undefined\<close> is false.
\<close>

definition arrayGet :: "real list \<Rightarrow> nat \<Rightarrow> real option" where
  "arrayGet xs i = (if i < length xs then Some (xs ! i) else None)"

definition lt_js :: "real option \<Rightarrow> real \<Rightarrow> bool" where
  "lt_js a b = (case a of None \<Rightarrow> False | Some v \<Rightarrow> v < b)"

definition gt_js :: "real option \<Rightarrow> real \<Rightarrow> bool" where
  "gt_js a b = (case a of None \<Rightarrow> False | Some v \<Rightarrow> v > b)"

record Counts =
  waterCount :: nat
  landCount :: nat
  vegCount :: nat
  desertCount :: nat
  mountainCount :: nat

text \<open>The body of the sampling loop of \<^verbatim>\<open>checkEvolutionCondition\<close> at index \<open>i\<close>.\<close>

definition sampleCell :: "TerrainData \<Rightarrow> nat \<Rightarrow> Counts \<Rightarrow> Counts" where
  "sampleCell terrain i c =
    (let h = arrayGet (heights terrain) i;
         m = arrayGet (moisture terrain) i;
         v = arrayGet (vegetation terrain) i
     in if lt_js h SEA_LEVEL then c\<lparr> waterCount := waterCount c + 1 \<rparr>
        else c\<lparr> landCount := landCount c + 1,
                mountainCount := (if gt_js h 5.0 then mountainCount c + 1 else mountainCount c),
                vegCount := (if gt_js v 0.3 then vegCount c + 1 else vegCount c),
                desertCount := (if lt_js m 0.25 then desertCount c + 1 else desertCount c) \<rparr>)"

text \<open>\<^verbatim>\<open>for (let i = 0; i < heights.length; i += 20)\<close>.\<close>

function sampleLoop :: "TerrainData \<Rightarrow> nat \<Rightarrow> Counts \<Rightarrow> Counts" where
  "sampleLoop terrain i c =
    (if i < length (heights terrain) then sampleLoop terrain (i + 20) (sampleCell terrain i c)
     else c)"
  by pat_completeness auto
termination
  by (relation "measure (\<lambda>(terrain, i, c). length (heights terrain) - i)") auto

definition checkEvolutionCondition ::
  "string \<Rightarrow> TerrainData \<Rightarrow> Entity list \<Rightarrow> VoxelData list \<Rightarrow> bool" where
  "checkEvolutionCondition nodeId terrain entities plants =
    (let c = sampleLoop terrain 0
               \<lparr> waterCount = 0, landCount = 0, vegCount = 0, desertCount = 0,
                 mountainCount = 0 \<rparr>;
         plantCount = length plants
     in if nodeId = ''origin_water'' then True
        else if nodeId = ''origin_land'' then landCount c > 10
        else if nodeId = ''flora_algae'' then waterCount c > 50
        else if nodeId = ''flora_moss'' then vegCount c > 10
        else if nodeId = ''flora_grass'' then vegCount c > 50
        else if nodeId = ''flora_tree''
          then vegCount c > 80 \<and> list_ex (\<lambda>m. m > 0.7) (moisture terrain)
        else if nodeId = ''flora_forest'' then plantCount \<ge> 10
        else if nodeId = ''life_fish'' then waterCount c > 100
        else if nodeId = ''life_amphibian'' then waterCount c > 50 \<and> landCount c > 50
        else if nodeId = ''life_reptile'' then desertCount c > 10
        else if nodeId = ''life_mammal'' then vegCount c > 30 \<and> length entities > 5
        else if nodeId = ''life_bird'' then plantCount > 10 \<and> mountainCount c > 10
        else False)"

subsection \<open>Evolution scan of the life simulation loop (App 605-616)\<close>

text \<open>
  One call \<^verbatim>\<open>addNotification(title, message, icon)\<close>; the notification's own id and
  timestamp are drawn inside \<^verbatim>\<open>addNotification\<close> and play no part here.
\<close>

record NotificationCall =
  title_c :: string
  message_c :: string
  icon_c :: string

text \<open>\<^verbatim>\<open>!node.parentId\<close>: the field is absent or the empty string.\<close>

definition noParent :: "EvolutionNode \<Rightarrow> bool" where
  "noParent node = (parentId node = None \<or> parentId node = Some [])"

definition parentUnlocked :: "string list \<Rightarrow> EvolutionNode \<Rightarrow> bool" where
  "parentUnlocked currentUnlocked node =
    (case parentId node of None \<Rightarrow> False | Some p \<Rightarrow> p \<in> set currentUnlocked)"

text \<open>
  The \<^verbatim>\<open>forEach\<close> over the tree. It reads \<open>currentUnlocked\<close>, the snapshot taken at
  the start of the tick, and collects \<open>newUnlocks\<close> and the notifications in tree order.
\<close>

fun scanNodes ::
  "string list \<Rightarrow> TerrainData \<Rightarrow> Entity list \<Rightarrow> VoxelData list \<Rightarrow> EvolutionNode list
   \<Rightarrow> string list \<times> NotificationCall list" where
  "scanNodes currentUnlocked tData entities plants [] = ([], [])"
| "scanNodes currentUnlocked tData entities plants (node # rest) =
    (let (newUnlocks, notes) = scanNodes currentUnlocked tData entities plants rest
     in if id_n node \<notin> set currentUnlocked
           \<and> (noParent node \<or> parentUnlocked currentUnlocked node)
           \<and> checkEvolutionCondition (id_n node) tData entities plants
        then (id_n node # newUnlocks,
              \<lparr> title_c = ''Evolution Unlocked!'', message_c = title node,
                icon_c = icon node \<rparr> # notes)
        else (newUnlocks, notes))"

text \<open>
  The scan of one tick: the new unlocked list
  (\<^verbatim>\<open>if (newUnlocks.length > 0) setUnlockedEvolutions(prev => [...prev, ...newUnlocks])\<close>)
  and the notifications emitted.
\<close>

definition evolutionScan ::
  "string list \<Rightarrow> TerrainData \<Rightarrow> Entity list \<Rightarrow> VoxelData list
   \<Rightarrow> string list \<times> NotificationCall list" where
  "evolutionScan currentUnlocked tData entities plants =
    (let (newUnlocks, notes) = scanNodes currentUnlocked tData entities plants EVOLUTION_TREE
     in (if length newUnlocks > 0 then currentUnlocked @ newUnlocks else currentUnlocked,
         notes))"

text \<open>
  A run of lifecycle ticks as far as the unlocked set goes: each tick scans against the
  world of that moment (terrain, entities, plants), starting from the given unlocked list.
\<close>

fun runScans ::
  "string list \<Rightarrow> (TerrainData \<times> Entity list \<times> VoxelData list) list \<Rightarrow> string list" where
  "runScans unlocked [] = unlocked"
| "runScans unlocked ((tData, entities, plants) # worlds) =
    runScans (fst (evolutionScan unlocked tData entities plants)) worlds"

text \<open>Tree gating: every unlocked node of the tree that has a parent has it unlocked.\<close>

definition gatingOk :: "string list \<Rightarrow> bool" where
  "gatingOk unlocked =
    list_all (\<lambda>node. id_n node \<in> set unlocked \<longrightarrow>
                (case parentId node of None \<Rightarrow> True | Some p \<Rightarrow> p \<in> set unlocked))
             EVOLUTION_TREE"

text \<open>A terrain of the size the game generates, all of one height, moisture and vegetation.\<close>

definition flatTerrain :: "real \<Rightarrow> real \<Rightarrow> real \<Rightarrow> TerrainData" where
  "flatTerrain h m v =
    \<lparr> size_t = MAP_SIZE, heights = replicate (MAP_SIZE * MAP_SIZE) h,
      moisture = replicate (MAP_SIZE * MAP_SIZE) m,
      vegetation = replicate (MAP_SIZE * MAP_SIZE) v \<rparr>"

text \<open>A terrain that is water everywhere, and the first node of the tree.\<close>

definition oceanTerrain :: TerrainData where
  "oceanTerrain = flatTerrain 0 (1 / 2) 0"

definition originWaterNode :: EvolutionNode where
  "originWaterNode = hd EVOLUTION_TREE"

subsection \<open>Terrain query: getTerrainHeight (gameUtils.ts 186-194)\<close>

text \<open>
  The sentinel \<open>-10\<close> is returned off the grid. A generated terrain has
  \<open>size * size\<close> cells, so the read is in range whenever the bounds check passes.
\<close>

definition getTerrainHeight :: "TerrainData \<Rightarrow> real \<Rightarrow> real \<Rightarrow> real" where
  "getTerrainHeight data x z =
    (let half = real (size_t data) / 2;
         ix = \<lfloor>x + half\<rfloor>;
         iz = \<lfloor>z + half\<rfloor>
     in if ix < 0 \<or> ix \<ge> int (size_t data) \<or> iz < 0 \<or> iz \<ge> int (size_t data) then - 10
        else heights data ! nat (iz * int (size_t data) + ix))"

subsection \<open>Physics loop: species constraints (App 341-366 and 387-410)\<close>

text \<open>
  Target validation, the body of the \<^verbatim>\<open>while (!validAttempt && attempts < 5)\<close> loop:
  whether a sampled target whose terrain height is \<open>th\<close> sets \<open>validAttempt\<close>. The
  sentinel height skips the attempt (\<^verbatim>\<open>if (th === -10) { attempts++; continue; }\<close>).
\<close>

definition targetValid :: "EntityType \<Rightarrow> real \<Rightarrow> bool" where
  "targetValid ty th =
    (if th = - 10 then False
     else if ty = FISH then th < SEA_LEVEL - 1.0
     else if ty = BIRD then True
     else if ty = AMPHIBIAN then th > SEA_LEVEL - 2 \<and> th < SEA_LEVEL + 2
     else th > SEA_LEVEL)"

text \<open>
  The legality check of the tentative next position, whose terrain height is \<open>nextH\<close>:
  the value of \<open>canMove\<close> after the three species branches.
\<close>

definition canMove :: "EntityType \<Rightarrow> real \<Rightarrow> bool" where
  "canMove ty nextH =
    (if ty = FISH then \<not> (nextH > SEA_LEVEL - 0.5)
     else if ty = AMPHIBIAN then \<not> (nextH < SEA_LEVEL - 2 \<or> nextH > SEA_LEVEL + 2)
     else if ty \<noteq> BIRD then \<not> (nextH < SEA_LEVEL)
     else True)"

subsection \<open>Physics loop: geologic event processing (App 195-222)\<close>

record GeologicEvent =
  x_g :: int
  z_g :: int
  radius :: real
  strength :: real
  life :: real

text \<open>The innermost body: the influence of one event on the cell at offset \<open>(dx, dz)\<close>.\<close>

definition eventCell :: "real \<Rightarrow> GeologicEvent \<Rightarrow> int \<Rightarrow> int \<Rightarrow> real list \<times> bool \<Rightarrow> real list \<times> bool" where
  "eventCell dt evt dz dx st =
    (let cx = x_g evt + dx;
         cz = z_g evt + dz
     in if cx \<ge> 0 \<and> cx < int MAP_SIZE \<and> cz \<ge> 0 \<and> cz < int MAP_SIZE then
          (let dist = sqrt (real_of_int (dx * dx + dz * dz))
           in if dist \<le> radius evt then
                (let influence = (1 - dist / radius evt) * strength evt * dt;
                     idx = nat (cz * int MAP_SIZE + cx)
                 in if idx < length (fst st)
                    then ((fst st)[idx := fst st ! idx + influence], True)
                    else (fst st, True))
              else st)
        else st)"

text \<open>The two nested \<^verbatim>\<open>for\<close> loops over the square \<open>[-range, range]\<close>, rows of \<open>dz\<close> first.\<close>

definition eventInfluence :: "real \<Rightarrow> GeologicEvent \<Rightarrow> real list \<times> bool \<Rightarrow> real list \<times> bool" where
  "eventInfluence dt evt st =
    (let range = \<lceil>radius evt\<rceil>
     in fold (\<lambda>dz. fold (\<lambda>dx. eventCell dt evt dz dx) [- range..range]) [- range..range] st)"

text \<open>
  One step of the \<^verbatim>\<open>forEach\<close> over the queue. The state is the height array, the
  flag \<open>terrainModified\<close> and the list \<open>activeEvents\<close>.
\<close>

definition eventStep ::
  "real \<Rightarrow> GeologicEvent \<Rightarrow> (real list \<times> bool) \<times> GeologicEvent list
   \<Rightarrow> (real list \<times> bool) \<times> GeologicEvent list" where
  "eventStep dt evt0 st =
    (let evt = evt0\<lparr> life := life evt0 - dt \<rparr>
     in if life evt > 0 then (eventInfluence dt evt (fst st), snd st @ [evt])
        else st)"

text \<open>
  The whole pass: from the height array, the flag and the queue to the new height array,
  flag and queue (\<^verbatim>\<open>geologicEvents.current = activeEvents\<close>).
\<close>

definition eventProcessing ::
  "real \<Rightarrow> real list \<times> bool \<Rightarrow> GeologicEvent list \<Rightarrow> (real list \<times> bool) \<times> GeologicEvent list" where
  "eventProcessing dt st events =
    (if length events > 0 then fold (eventStep dt) events (st, []) else (st, events))"

subsection \<open>Physics loop: vegetation growth sampling (App 226-276)\<close>

text \<open>The land branch (\<open>h > SEA_LEVEL\<close>) for a cell of moisture \<open>m\<close> and vegetation \<open>v\<close>.\<close>

definition landRule :: "WeatherState \<Rightarrow> real \<Rightarrow> real \<Rightarrow> real \<Rightarrow> real \<Rightarrow> real" where
  "landRule weather dt m v rnd =
    (let effectiveMoisture = (m + rainfall weather) / 2;
         effectiveTemp = temperature weather;
         growthRate = (if effectiveTemp < 0.3 then - 0.01
                       else if effectiveMoisture < 0.2 then - 0.05
                       else (let tempFactor = 1 - \<bar>0.7 - effectiveTemp\<bar>
                             in 0.05 * tempFactor * effectiveMoisture))
     in if v < 0.1 \<and> effectiveMoisture > 0.4 \<and> effectiveTemp > 0.4 \<and> rnd < 0.05 * dt then 0.1
        else max 0 (min 1 (v + growthRate * dt)))"

text \<open>The marine branch: incremental growth with a small probability, capped at 0.5.\<close>

definition marineRule :: "real \<Rightarrow> real \<Rightarrow> real \<Rightarrow> real" where
  "marineRule dt v rnd =
    (let v1 = (if v < 0.5 \<and> rnd < 0.05 * dt then v + 0.02 * dt else v)
     in min 0.5 v1)"

text \<open>The new vegetation of a sampled cell of height \<open>h\<close>.\<close>

definition growCell :: "WeatherState \<Rightarrow> real \<Rightarrow> real \<Rightarrow> real \<Rightarrow> real \<Rightarrow> real \<Rightarrow> real" where
  "growCell weather dt h m v rnd =
    (if h > SEA_LEVEL then landRule weather dt m v rnd
     else if h < SEA_LEVEL - 1.0 then marineRule dt v rnd
     else 0)"

text \<open>
  The draws of one sample: the two for the cell and the one the branch may use.
\<close>

record GrowthDraw =
  g_rx :: real
  g_rz :: real
  g_rnd :: real

text \<open>
  One iteration of the sampling loop. The three reads are at the same index; past the
  end of the arrays a read is \<^verbatim>\<open>undefined\<close>, both comparisons of the height fail, and
  the write of 0 into the typed array is dropped.
\<close>

definition growthSample :: "WeatherState \<Rightarrow> real \<Rightarrow> GrowthDraw \<Rightarrow> TerrainData \<Rightarrow> TerrainData" where
  "growthSample weather dt d tData =
    (let rx = \<lfloor>g_rx d * real MAP_SIZE\<rfloor>;
         rz = \<lfloor>g_rz d * real MAP_SIZE\<rfloor>;
         idx = rz * int MAP_SIZE + rx
     in if 0 \<le> idx \<and> nat idx < length (heights tData) \<and> nat idx < length (moisture tData)
           \<and> nat idx < length (vegetation tData) then
          (let h = heights tData ! nat idx;
               m = moisture tData ! nat idx;
               v = growCell weather dt h m (vegetation tData ! nat idx) (g_rnd d)
           in if v \<noteq> vegetation tData ! nat idx
              then tData\<lparr> vegetation := (vegetation tData)[nat idx := v] \<rparr>
              else tData)
        else tData)"

text \<open>The loop \<^verbatim>\<open>for (let i = 0; i < 400; i++)\<close>, sample \<open>i\<close> using the draws \<open>draws i\<close>.\<close>

definition vegetationGrowth ::
  "WeatherState \<Rightarrow> real \<Rightarrow> (nat \<Rightarrow> GrowthDraw) \<Rightarrow> TerrainData \<Rightarrow> TerrainData" where
  "vegetationGrowth weather dt draws tData =
    fold (\<lambda>i. growthSample weather dt (draws i)) [0..<400] tData"

text \<open>Inputs used below: an event about to expire, a weather state.\<close>

definition lastTickEvent :: GeologicEvent where
  "lastTickEvent = \<lparr> x_g = 64, z_g = 64, radius = 5, strength = 1 / 50, life = 1 \<rparr>"

definition mildWeather :: WeatherState where
  "mildWeather = \<lparr> year = 1, season = Spring, temperature = 7 / 10, rainfall = 4 / 5,
                   isFreakEvent = False, eventLabel = None \<rparr>"

subsection \<open>Brush edits: handleInteract (App 115-163)\<close>

datatype GameMode = VIEW | RISE | LOWER | RAIN_ADD | RAIN_SUB

text \<open>
  The body of the two brush loops at offset \<open>(dx, dz)\<close>. A write past the end of a typed
  array is dropped, as \<open>xs[i := v]\<close> is. The bump of \<open>terrainVersion\<close> is not modelled.
\<close>

definition brushCell :: "GameMode \<Rightarrow> int \<Rightarrow> int \<Rightarrow> int \<Rightarrow> int \<Rightarrow> int \<Rightarrow> TerrainData \<Rightarrow> TerrainData" where
  "brushCell gameMode brushRad cx cz dx dz tData =
    (let x = cx + dx;
         z = cz + dz
     in if x < 0 \<or> x \<ge> int MAP_SIZE \<or> z < 0 \<or> z \<ge> int MAP_SIZE then tData
        else
          (let idx = nat (z * int MAP_SIZE + x);
               dist = sqrt (real_of_int (dx * dx + dz * dz))
           in if dist > real_of_int brushRad then tData
              else
                (let falloff = 1 - dist / (real_of_int brushRad + 1)
                 in case gameMode of
                      RISE \<Rightarrow>
                        tData\<lparr> heights := (heights tData)[idx := heights tData ! idx + 0.5 * falloff] \<rparr>
                    | LOWER \<Rightarrow>
                        tData\<lparr> heights := (heights tData)[idx := heights tData ! idx - 0.5 * falloff] \<rparr>
                    | RAIN_ADD \<Rightarrow>
                        tData\<lparr> moisture :=
                          (moisture tData)[idx := min 1.0 (moisture tData ! idx + 0.1 * falloff)] \<rparr>
                    | RAIN_SUB \<Rightarrow>
                        tData\<lparr> moisture :=
                          (moisture tData)[idx := max 0.0 (moisture tData ! idx - 0.1 * falloff)] \<rparr>
                    | VIEW \<Rightarrow> tData)))"

text \<open>\<^verbatim>\<open>Math.round\<close> rounds half up.\<close>

definition jsRound :: "real \<Rightarrow> int" where
  "jsRound x = \<lfloor>x + 1 / 2\<rfloor>"

definition handleInteract :: "GameMode \<Rightarrow> nat \<Rightarrow> real \<Rightarrow> real \<Rightarrow> TerrainData \<Rightarrow> TerrainData" where
  "handleInteract gameMode brushSize px pz tData =
    (let half = real MAP_SIZE / 2;
         cx = jsRound (px + half);
         cz = jsRound (pz + half)
     in if cx < 0 \<or> cx \<ge> int MAP_SIZE \<or> cz < 0 \<or> cz \<ge> int MAP_SIZE then tData
        else
          (let brushRad = int (brushSize div 2)
           in fold (\<lambda>dx. fold (\<lambda>dz. brushCell gameMode brushRad cx cz dx dz)
                              [- brushRad..brushRad])
                [- brushRad..brushRad] tData))"

subsection \<open>Life simulation loop: spawning (App 459-502)\<close>

text \<open>\<^verbatim>\<open>ENTITY_STATS\<close>: maximal energy, diet and colour of each species.\<close>

fun statsMaxEnergy :: "EntityType \<Rightarrow> real" where
  "statsMaxEnergy FISH = 100"
| "statsMaxEnergy AMPHIBIAN = 120"
| "statsMaxEnergy REPTILE = 150"
| "statsMaxEnergy BIRD = 80"
| "statsMaxEnergy MAMMAL = 200"
| "statsMaxEnergy PRIMATE = 180"

fun statsDiet :: "EntityType \<Rightarrow> Diet" where
  "statsDiet FISH = HERBIVORE"
| "statsDiet AMPHIBIAN = OMNIVORE"
| "statsDiet REPTILE = CARNIVORE"
| "statsDiet BIRD = OMNIVORE"
| "statsDiet MAMMAL = HERBIVORE"
| "statsDiet PRIMATE = OMNIVORE"

fun statsColor :: "EntityType \<Rightarrow> string" where
  "statsColor FISH = ''#f97316''"
| "statsColor AMPHIBIAN = ''#65a30d''"
| "statsColor REPTILE = ''#15803d''"
| "statsColor BIRD = ''#e11d48''"
| "statsColor MAMMAL = ''#78350f''"
| "statsColor PRIMATE = ''#d97706''"

text \<open>
  The draws of one spawning attempt: the probability gate, the location, the pack id, the
  pack size and, for member \<open>i\<close>, the two offsets and the id.
\<close>

record SpawnDraw =
  s_gate :: real
  s_rx :: real
  s_rz :: real
  s_pack :: string
  s_size :: real
  s_member :: "nat \<Rightarrow> real \<times> real \<times> string"

definition typeToSpawn :: "string list \<Rightarrow> real \<Rightarrow> EntityType option" where
  "typeToSpawn currentUnlocked rh =
    (if ''life_fish'' \<in> set currentUnlocked \<and> rh < SEA_LEVEL - 2 then Some FISH
     else if ''life_mammal'' \<in> set currentUnlocked \<and> rh > SEA_LEVEL + 1 then Some MAMMAL
     else if ''life_reptile'' \<in> set currentUnlocked \<and> rh > SEA_LEVEL + 1 then Some REPTILE
     else if ''life_bird'' \<in> set currentUnlocked \<and> rh > 5 then Some BIRD
     else if ''life_amphibian'' \<in> set currentUnlocked \<and> rh > SEA_LEVEL - 1 \<and> rh < SEA_LEVEL + 1
       then Some AMPHIBIAN
     else None)"

text \<open>
  One member of a new pack. The fields the source leaves out of the object literal are
  absent. \<^verbatim>\<open>stats.maxEnergy || 100\<close> is \<open>stats.maxEnergy\<close>, which is never 0.
\<close>

definition packMember ::
  "EntityType \<Rightarrow> real \<Rightarrow> real \<Rightarrow> real \<Rightarrow> string \<Rightarrow> real \<times> real \<times> string \<Rightarrow> Entity" where
  "packMember ty rx rz rh pack m =
    (case m of (mx, mz, mid) \<Rightarrow>
      \<lparr> id_e = mid, type_e = ty,
        x_e = rx + (mx - 0.5) * 4, y_e = rh, z_e = rz + (mz - 0.5) * 4,
        color = statsColor ty, rotation = None, vx = None, vy = None, vz = None,
        targetX = None, targetY = None, targetZ = None,
        homeX = rx, homeZ = rz, isMigrating = None, packId = Some pack,
        energy = statsMaxEnergy ty, maxEnergy = statsMaxEnergy ty, age = 0,
        diet = statsDiet ty \<rparr>)"

text \<open>
  The spawning step as an update of the entity list; \<open>population\<close> is the length of that
  list. The new pack is appended and the list cut to 200
  (\<^verbatim>\<open>[...prev, ...newPack].slice(0, 200)\<close>).
\<close>

definition spawn ::
  "real \<Rightarrow> TerrainData \<Rightarrow> string list \<Rightarrow> SpawnDraw \<Rightarrow> Entity list \<Rightarrow> Entity list" where
  "spawn dt tData currentUnlocked d prev =
    (let population = length prev;
         spawnChance = (if population < 20 then 0.5 else 0.05 :: real)
     in if population < 200 \<and> s_gate d < spawnChance * dt then
          (let rx = (s_rx d - 0.5) * (real MAP_SIZE - 4);
               rz = (s_rz d - 0.5) * (real MAP_SIZE - 4);
               rh = getTerrainHeight tData rx rz
           in case typeToSpawn currentUnlocked rh of
                None \<Rightarrow> prev
              | Some ty \<Rightarrow>
                  (let packSize = 2 + \<lfloor>s_size d * 4\<rfloor>;
                       newPack = map (\<lambda>i. packMember ty rx rz rh (s_pack d) (s_member d i))
                                     [0..<nat packSize]
                   in take 200 (prev @ newPack)))
        else prev)"

subsection \<open>Life simulation loop: aging, feeding, culling (App 504-560)\<close>

definition ageStep :: "real \<Rightarrow> Entity \<Rightarrow> Entity" where
  "ageStep dt e = e\<lparr> age := age e + dt, energy := energy e - 0.1 * dt \<rparr>"

text \<open>
  Grazing of a herbivore or omnivore on the vegetation array: the entity and the array
  after it. Only the flat index is checked against the array.
\<close>

definition grazing :: "real \<Rightarrow> Entity \<Rightarrow> real list \<Rightarrow> Entity \<times> real list" where
  "grazing dt e veg =
    (let ix = \<lfloor>x_e e + real MAP_SIZE / 2\<rfloor>;
         iz = \<lfloor>z_e e + real MAP_SIZE / 2\<rfloor>;
         idx = iz * int MAP_SIZE + ix
     in if idx \<ge> 0 \<and> idx < int (length veg) then
          (if type_e e = FISH then
             (if veg ! nat idx > 0.05
              then (e\<lparr> energy := energy e + 10 \<rparr>, veg[nat idx := veg ! nat idx - 0.05])
              else (e\<lparr> energy := energy e - 1 * dt \<rparr>, veg))
           else
             (if veg ! nat idx > 0.1
              then (e\<lparr> energy := energy e + 10 \<rparr>, veg[nat idx := veg ! nat idx - 0.05])
              else (e\<lparr> energy := energy e - 1 * dt \<rparr>, veg)))
        else (e, veg))"

text \<open>
  The prey search \<^verbatim>\<open>nextEntities.find(...)\<close>. It reads only the id and the position of
  the candidates, which the feeding loop never changes.
\<close>

definition findPrey :: "Entity list \<Rightarrow> string list \<Rightarrow> Entity \<Rightarrow> Entity option" where
  "findPrey nextEntities consumedIds e =
    find (\<lambda>p. id_e p \<noteq> id_e e \<and> id_e p \<notin> set consumedIds
              \<and> sqrt ((x_e p - x_e e)\<^sup>2 + (z_e p - z_e e)\<^sup>2) < 2)
         nextEntities"

definition hunting ::
  "real \<Rightarrow> Entity list \<Rightarrow> Entity \<Rightarrow> string list \<Rightarrow> Entity \<times> string list" where
  "hunting dt nextEntities e consumedIds =
    (case findPrey nextEntities consumedIds e of
       Some prey \<Rightarrow> (e\<lparr> energy := energy e + 50 \<rparr>, consumedIds @ [id_e prey])
     | None \<Rightarrow> (e\<lparr> energy := energy e - 1 * dt \<rparr>, consumedIds))"

text \<open>
  The body of the feeding \<^verbatim>\<open>forEach\<close> for one entity; the state is the vegetation
  array and \<open>consumedIds\<close>.
\<close>

definition feedOne ::
  "real \<Rightarrow> Entity list \<Rightarrow> Entity \<Rightarrow> real list \<times> string list
   \<Rightarrow> Entity \<times> real list \<times> string list" where
  "feedOne dt nextEntities e st =
    (if energy e \<ge> maxEnergy e then (e, st)
     else
       (let (e1, veg1) = (if diet e = HERBIVORE \<or> diet e = OMNIVORE
                          then grazing dt e (fst st) else (e, fst st));
            (e2, consumed1) = (if diet e = CARNIVORE \<or> diet e = OMNIVORE
                               then hunting dt nextEntities e1 (snd st) else (e1, snd st))
        in (e2, veg1, consumed1)))"

fun feedLoop ::
  "real \<Rightarrow> Entity list \<Rightarrow> Entity list \<Rightarrow> real list \<times> string list
   \<Rightarrow> Entity list \<times> real list \<times> string list" where
  "feedLoop dt nextEntities [] st = ([], st)"
| "feedLoop dt nextEntities (e # es) st =
    (let (e', st') = feedOne dt nextEntities e st;
         (es', st'') = feedLoop dt nextEntities es st'
     in (e' # es', st''))"

subsection \<open>Life simulation loop: reproduction (App 562-602)\<close>

text \<open>The draws for one parent.\<close>

record ReproDraw =
  r_migrate :: real
  r_angle :: real
  r_dist :: real
  r_pack :: string
  r_id :: string
  r_x :: real
  r_z :: real

definition localCount :: "Entity list \<Rightarrow> Entity \<Rightarrow> nat" where
  "localCount nextEntities parent =
    length (filter (\<lambda>n. \<bar>x_e n - x_e parent\<bar> < 10 \<and> \<bar>z_e n - z_e parent\<bar> < 10) nextEntities)"

definition baby :: "Entity \<Rightarrow> ReproDraw \<Rightarrow> Entity" where
  "baby parent d =
    (let migrating = (r_migrate d < 0.1);
         angle = r_angle d * pi * 2;
         r = 20 + r_dist d * 20
     in parent\<lparr> id_e := r_id d,
                x_e := x_e parent + (r_x d - 0.5),
                z_e := z_e parent + (r_z d - 0.5),
                homeX := (if migrating then x_e parent + cos angle * r else homeX parent),
                homeZ := (if migrating then z_e parent + sin angle * r else homeZ parent),
                packId := (if migrating then Some (r_pack d) else packId parent),
                isMigrating := Some migrating,
                age := 0,
                energy := maxEnergy parent * 0.5 \<rparr>)"

text \<open>
  The reproduction \<^verbatim>\<open>forEach\<close>: the parents as the loop leaves them and the babies.
  The count of neighbours reads positions only, so it is taken on the list as it was
  before the loop; parent number \<open>i\<close> uses the draws \<open>draws i\<close>.
\<close>

fun reproLoop ::
  "Entity list \<Rightarrow> (nat \<Rightarrow> ReproDraw) \<Rightarrow> nat \<Rightarrow> Entity list \<Rightarrow> Entity list \<times> Entity list" where
  "reproLoop nextEntities draws i [] = ([], [])"
| "reproLoop nextEntities draws i (parent # rest) =
    (let (parents, babies) = reproLoop nextEntities draws (i + 1) rest
     in if energy parent > maxEnergy parent * 0.9 \<and> localCount nextEntities parent < 10
        then (parent\<lparr> energy := energy parent * 0.6 \<rparr> # parents, baby parent (draws i) # babies)
        else (parent # parents, babies))"

text \<open>
  The updater of the lifecycle pass: the new entity list, and the terrain with the
  vegetation array as feeding leaves it.
\<close>

definition lifecyclePass ::
  "real \<Rightarrow> TerrainData \<Rightarrow> (nat \<Rightarrow> ReproDraw) \<Rightarrow> Entity list \<Rightarrow> Entity list \<times> TerrainData" where
  "lifecyclePass dt tData draws prevEntities =
    (let aged = map (ageStep dt) prevEntities;
         (fed, veg, consumedIds) = feedLoop dt aged aged (vegetation tData, []);
         notEaten = filter (\<lambda>e. id_e e \<notin> set consumedIds) fed;
         alive = filter (\<lambda>e. energy e > 0 \<and> age e < 3000) notEaten;
         (parents, babies) = (if length alive < 200 then reproLoop alive draws 0 alive
                              else (alive, []))
     in (parents @ babies, tData\<lparr> vegetation := veg \<rparr>))"

text \<open>
  The entity list after one lifecycle tick that passes the pause and time-scale gate: the
  spawning updater, then the updater of the lifecycle pass.
\<close>

definition lifeTickEntities ::
  "real \<Rightarrow> TerrainData \<Rightarrow> string list \<Rightarrow> SpawnDraw \<Rightarrow> (nat \<Rightarrow> ReproDraw) \<Rightarrow> Entity list
   \<Rightarrow> Entity list" where
  "lifeTickEntities dt tData currentUnlocked sd rd prev =
    fst (lifecyclePass dt tData rd (spawn dt tData currentUnlocked sd prev))"

subsection \<open>Terrain mutations and the ranges of moisture and vegetation\<close>

text \<open>
  The three kinds of mutation of the moisture and vegetation arrays: a brush edit, the
  vegetation growth loop of a physics tick, and the feeding of a lifecycle pass. The two
  ticks return at once when the time scale is not positive.
\<close>

datatype TerrainOp =
    BrushEdit GameMode nat real real
  | GrowthUpdate WeatherState real "nat \<Rightarrow> GrowthDraw"
  | FeedingPass real "nat \<Rightarrow> ReproDraw" "Entity list"

fun applyOp :: "TerrainOp \<Rightarrow> TerrainData \<Rightarrow> TerrainData" where
  "applyOp (BrushEdit gameMode brushSize px pz) tData = handleInteract gameMode brushSize px pz tData"
| "applyOp (GrowthUpdate weather dt draws) tData =
    (if dt \<le> 0 then tData else vegetationGrowth weather dt draws tData)"
| "applyOp (FeedingPass dt draws entities) tData =
    (if dt \<le> 0 then tData else snd (lifecyclePass dt tData draws entities))"

definition applyOps :: "TerrainOp list \<Rightarrow> TerrainData \<Rightarrow> TerrainData" where
  "applyOps ops tData = fold applyOp ops tData"

text \<open>Every moisture cell and every vegetation cell lies in \<open>[0, 1]\<close>.\<close>

definition unitRanges :: "TerrainData \<Rightarrow> bool" where
  "unitRanges tData =
    (list_all (\<lambda>m. 0 \<le> m \<and> m \<le> 1) (moisture tData)
     \<and> list_all (\<lambda>v. 0 \<le> v \<and> v \<le> 1) (vegetation tData))"

text \<open>
  The ranges as declared: moisture in \<open>[0, 1]\<close>; vegetation in \<open>[0, 1]\<close> on a cell above
  sea level and in \<open>[0, 0.5]\<close> on a cell below sea level.
\<close>

definition declaredRanges :: "TerrainData \<Rightarrow> bool" where
  "declaredRanges tData =
    list_all (\<lambda>i. 0 \<le> moisture tData ! i \<and> moisture tData ! i \<le> 1
                 \<and> (heights tData ! i > SEA_LEVEL \<longrightarrow>
                       0 \<le> vegetation tData ! i \<and> vegetation tData ! i \<le> 1)
                 \<and> (heights tData ! i < SEA_LEVEL \<longrightarrow>
                       0 \<le> vegetation tData ! i \<and> vegetation tData ! i \<le> 1 / 2))
             [0..<length (heights tData)]"

text \<open>The flat index of the cell that a growth sample reads and writes.\<close>

definition sampledIndex :: "GrowthDraw \<Rightarrow> int" where
  "sampledIndex d = \<lfloor>g_rz d * real MAP_SIZE\<rfloor> * int MAP_SIZE + \<lfloor>g_rx d * real MAP_SIZE\<rfloor>"

text \<open>
  Inputs used below: a low shore with seeded vegetation (height 1.25, moisture 0.8,
  vegetation 0.2, as terrain generation seeds it), and draws that sample the cell under
  the world origin, index \<open>64 * 128 + 64 = 8256\<close>.
\<close>

definition shoreTerrain :: TerrainData where
  "shoreTerrain = flatTerrain (5 / 4) (4 / 5) (1 / 5)"

definition centreDraw :: GrowthDraw where
  "centreDraw = \<lparr> g_rx = 1 / 2, g_rz = 1 / 2, g_rnd = 1 / 2 \<rparr>"

text \<open>Every cell of a vegetation array lies in \<open>[0, 1]\<close>.\<close>

definition vegOk :: "real list \<Rightarrow> bool" where
  "vegOk veg = list_all (\<lambda>v. 0 \<le> v \<and> v \<le> 1) veg"

subsection \<open>Inputs for the lifecycle theorems\<close>

text \<open>
  An entity of a species with the statistics of \<^verbatim>\<open>ENTITY_STATS\<close>, at home where it
  stands, with the given id, position, energy and age.
\<close>

definition entityAt :: "string \<Rightarrow> EntityType \<Rightarrow> real \<Rightarrow> real \<Rightarrow> real \<Rightarrow> real \<Rightarrow> Entity" where
  "entityAt ident ty px pz en ag =
    \<lparr> id_e = ident, type_e = ty, x_e = px, y_e = 0, z_e = pz,
      color = statsColor ty, rotation = None, vx = None, vy = None, vz = None,
      targetX = None, targetY = None, targetZ = None,
      homeX = px, homeZ = pz, isMigrating = None, packId = None,
      energy = en, maxEnergy = statsMaxEnergy ty, age = ag, diet = statsDiet ty \<rparr>"

text \<open>Draws for reproduction: no migration, no offset; baby number \<open>i\<close> gets its own id.\<close>

definition stillDraws :: "nat \<Rightarrow> ReproDraw" where
  "stillDraws i =
    \<lparr> r_migrate = 1 / 2, r_angle = 0, r_dist = 0, r_pack = ''p0'',
      r_id = ''0.9'' @ replicate i (CHR ''9''), r_x = 1 / 2, r_z = 1 / 2 \<rparr>"

text \<open>Deep water with algae: height -4, vegetation 0.2.\<close>

definition algaeTerrain :: TerrainData where
  "algaeTerrain = flatTerrain (- 4) (1 / 2) (1 / 5)"

text \<open>A fish whose energy has run out, a well-fed reptile, and a fish next to it.\<close>

definition spentFish :: Entity where
  "spentFish = entityAt ''0.1'' FISH 0 0 0 10"

definition fedReptile :: Entity where
  "fedReptile = entityAt ''0.1'' REPTILE 0 0 140 10"

definition nearbyFish :: Entity where
  "nearbyFish = entityAt ''0.2'' FISH 1 0 50 10"

text \<open>The most that feeding can credit to an entity of a diet in one pass.\<close>

fun feedingGain :: "Diet \<Rightarrow> real" where
  "feedingGain HERBIVORE = 10"
| "feedingGain CARNIVORE = 50"
| "feedingGain OMNIVORE = 60"

text \<open>
  What the feeding loop may do to an entity: it changes the energy only, and credits at
  most the feeding gain of the diet.
\<close>

definition fedFrom :: "Entity \<Rightarrow> Entity \<Rightarrow> bool" where
  "fedFrom e' e =
    (e'\<lparr> energy := 0 \<rparr> = e\<lparr> energy := 0 \<rparr> \<and> energy e' \<le> energy e + feedingGain (diet e))"

text \<open>
  The entities of a lifecycle pass that are left after culling, before reproduction
  (the list \<open>alive\<close> of \<open>lifecyclePass\<close>).
\<close>

definition survivors :: "real \<Rightarrow> TerrainData \<Rightarrow> Entity list \<Rightarrow> Entity list" where
  "survivors dt tData prevEntities =
    (let aged = map (ageStep dt) prevEntities;
         r = feedLoop dt aged aged (vegetation tData, [])
     in filter (\<lambda>e. energy e > 0 \<and> age e < 3000)
          (filter (\<lambda>e. id_e e \<notin> set (snd (snd r))) (fst r)))"

text \<open>Whether a parent reproduces, as the reproduction loop tests it.\<close>

definition reproduces :: "Entity list \<Rightarrow> Entity \<Rightarrow> bool" where
  "reproduces nextEntities parent =
    (energy parent > maxEnergy parent * 0.9 \<and> localCount nextEntities parent < 10)"

text \<open>A fish that has reached the age limit.\<close>

definition oldFish :: Entity where
  "oldFish = entityAt ''0.1'' FISH 0 0 50 3000"

text \<open>A reptile with energy 60 of 150, next to \<open>nearbyFish\<close>.\<close>

definition hungryReptile :: Entity where
  "hungryReptile = entityAt ''0.1'' REPTILE 0 0 60 10"

text \<open>
  A world of 199 entities: a school of 195 fish in one spot of the sea, each with half
  its energy, and four well-fed mammals standing 20 and 40 units apart on bare land. The
  terrain is land of height 2 west of the origin and sea of depth 4 east of it, with no
  vegetation. The spawning draw fails the probability gate.
\<close>

definition schoolFish :: "nat \<Rightarrow> Entity" where
  "schoolFish i = entityAt (''0.5'' @ replicate i (CHR ''5'')) FISH 40 40 50 10"

definition herd :: "Entity list" where
  "herd = [entityAt ''0.1'' MAMMAL (- 40) (- 40) 205 10,
           entityAt ''0.2'' MAMMAL (- 40) 0 205 10,
           entityAt ''0.3'' MAMMAL (- 20) (- 40) 205 10,
           entityAt ''0.4'' MAMMAL (- 20) 0 205 10]"

definition crowd :: "Entity list" where
  "crowd = map schoolFish [0..<195] @ herd"

definition bareIsland :: TerrainData where
  "bareIsland =
    \<lparr> size_t = MAP_SIZE,
      heights = map (\<lambda>i. if i mod MAP_SIZE < 64 then 2 else - 4) [0..<MAP_SIZE * MAP_SIZE],
      moisture = replicate (MAP_SIZE * MAP_SIZE) (1 / 2),
      vegetation = replicate (MAP_SIZE * MAP_SIZE) 0 \<rparr>"

definition noSpawn :: SpawnDraw where
  "noSpawn = \<lparr> s_gate = 1, s_rx = 1 / 2, s_rz = 1 / 2, s_pack = ''p1'', s_size = 0,
               s_member = (\<lambda>i. (1 / 2, 1 / 2, ''0.7'' @ replicate i (CHR ''7''))) \<rparr>"

text \<open>What the feeding loop does to an entity of \<open>crowd\<close> on bare terrain with \<open>dt = 1\<close>.\<close>

definition fedOnBare :: "Entity \<Rightarrow> Entity" where
  "fedOnBare e = (if maxEnergy e \<le> energy e then e else e\<lparr> energy := energy e - 1 \<rparr>)"

text \<open>The entities of \<open>crowd\<close> after aging and feeding with \<open>dt = 1\<close>.\<close>

definition fedFish :: "nat \<Rightarrow> Entity" where
  "fedFish i = (schoolFish i)\<lparr> age := 11, energy := 489 / 10 \<rparr>"

definition fedHerd :: "Entity list" where
  "fedHerd = map (\<lambda>e. e\<lparr> age := 11, energy := 2049 / 10 \<rparr>) herd"

text \<open>The flat index of the cell on which an entity grazes (as computed in \<open>grazing\<close>).\<close>

definition grazeIndex :: "Entity \<Rightarrow> int" where
  "grazeIndex e = \<lfloor>z_e e + real MAP_SIZE / 2\<rfloor> * int MAP_SIZE + \<lfloor>x_e e + real MAP_SIZE / 2\<rfloor>"

text \<open>
  The vegetation a cell must exceed for a grazer to feed on it: 0.05 for a fish, 0.1 for
  every other species (the two branches of \<open>grazing\<close>).
\<close>

definition grazeThreshold :: "EntityType \<Rightarrow> real" where
  "grazeThreshold ty = (if ty = FISH then 0.05 else 0.1)"

text \<open>The test of the prey search, without the check against \<open>consumedIds\<close>.\<close>

definition nearOther :: "Entity \<Rightarrow> Entity \<Rightarrow> bool" where
  "nearOther e p = (id_e p \<noteq> id_e e \<and> sqrt ((x_e p - x_e e)\<^sup>2 + (z_e p - z_e e)\<^sup>2) < 2)"

text \<open>
  An entity finds no food in a pass that starts with the vegetation array \<open>veg\<close> and the
  entities \<open>entities\<close>: if it grazes, its cell holds no more than its threshold; if it
  hunts, no entity with another id is within 2 units.
\<close>

definition noFood :: "real list \<Rightarrow> Entity list \<Rightarrow> Entity \<Rightarrow> bool" where
  "noFood veg entities e =
    ((diet e = HERBIVORE \<or> diet e = OMNIVORE \<longrightarrow>
        (0 \<le> grazeIndex e \<and> grazeIndex e < int (length veg) \<longrightarrow>
           veg ! nat (grazeIndex e) \<le> grazeThreshold (type_e e)))
     \<and> (diet e = CARNIVORE \<or> diet e = OMNIVORE \<longrightarrow> \<not> list_ex (nearOther e) entities))"

text \<open>
  The most that grazing and hunting can add to the energy of an entity in a pass that
  starts with the vegetation array \<open>veg\<close> and the entities \<open>entities\<close>: grazing gives 10
  if the cell holds more than the threshold at the start, costs \<open>dt\<close> if it holds no more,
  and does nothing off the array; hunting gives 50 if an entity with another id is within
  2 units and costs \<open>dt\<close> otherwise.
\<close>

definition cellCredit :: "real \<Rightarrow> real list \<Rightarrow> Entity \<Rightarrow> real" where
  "cellCredit dt veg e =
    (if 0 \<le> grazeIndex e \<and> grazeIndex e < int (length veg)
     then (if veg ! nat (grazeIndex e) > grazeThreshold (type_e e) then 10 else - dt)
     else 0)"

definition preyCredit :: "real \<Rightarrow> Entity list \<Rightarrow> Entity \<Rightarrow> real" where
  "preyCredit dt entities e = (if list_ex (nearOther e) entities then 50 else - dt)"

text \<open>
  The most energy the feeding loop can leave to an entity that enters it (after aging) as
  \<open>e\<close>: an entity at or above its maximum is not fed; the others get the credits of
  their diet.
\<close>

definition feedCeiling :: "real \<Rightarrow> real list \<Rightarrow> Entity list \<Rightarrow> Entity \<Rightarrow> real" where
  "feedCeiling dt veg entities e =
    (if maxEnergy e \<le> energy e then energy e
     else energy e
          + (if diet e = HERBIVORE \<or> diet e = OMNIVORE then cellCredit dt veg e else 0)
          + (if diet e = CARNIVORE \<or> diet e = OMNIVORE then preyCredit dt entities e else 0))"

text \<open>Cell by cell, one vegetation array is at most another.\<close>

definition vegLe :: "real list \<Rightarrow> real list \<Rightarrow> bool" where
  "vegLe veg' veg = (length veg' = length veg \<and> (\<forall>i < length veg. veg' ! i \<le> veg ! i))"

text \<open>\<open>fedFrom\<close>, with the energy below the ceiling.\<close>

definition fedFromOn :: "real \<Rightarrow> real list \<Rightarrow> Entity list \<Rightarrow> Entity \<Rightarrow> Entity \<Rightarrow> bool" where
  "fedFromOn dt veg entities e' e = (fedFrom e' e \<and> energy e' \<le> feedCeiling dt veg entities e)"

text \<open>
  Further inputs: grazed land with vegetation 0.08 and a meadow with vegetation 0.2; a
  mammal with no energy left, a fish and an amphibian with negative energy.
\<close>

definition grazedLand :: TerrainData where
  "grazedLand = flatTerrain 2 (1 / 2) (2 / 25)"

definition meadow :: TerrainData where
  "meadow = flatTerrain 2 (1 / 2) (1 / 5)"

definition parchedMammal :: Entity where
  "parchedMammal = entityAt ''0.1'' MAMMAL (- 40) (- 40) 0 10"

definition sinkingFish :: Entity where
  "sinkingFish = entityAt ''0.1'' FISH 0 0 (- 199 / 20) 10"

definition lonelyAmphibian :: Entity where
  "lonelyAmphibian = entityAt ''0.1'' AMPHIBIAN 0 0 (- 19 / 2) 10"

section \<open>Theorems\<close>

text \<open>
  C9. \<^verbatim>\<open>calculateWeather(0)\<close> returns year 1 and season Spring with
  \<open>isFreakEvent = false\<close>, and the flag is the value of the literal hash formula
  \<open>(day * 9301 + 49297) mod 100 < 2\<close> at day 0 (the hash is 97, which is not below 2).
\<close>

theorem calculateWeather_tick0:
  "year (calculateWeather 0) = 1
   \<and> season (calculateWeather 0) = Spring
   \<and> isFreakEvent (calculateWeather 0) = False
   \<and> isFreakEvent (calculateWeather 0) = (((0::nat) * 9301 + 49297) mod 100 < 2)
   \<and> ((0::nat) * 9301 + 49297) mod 100 = 97"
  by (simp add: calculateWeather_def Let_def TICKS_PER_YEAR_def TICKS_PER_DAY_def
      DAYS_PER_SEASON_def SEASONS_PER_YEAR_def SEASONS_def isFreak_def)

subsection \<open>Evolution: tree gating\<close>

lemma tree_ids_distinct: "distinct (map id_n EVOLUTION_TREE)"
  by (simp add: EVOLUTION_TREE_def)

lemma tree_parent_nonempty: "node \<in> set EVOLUTION_TREE \<Longrightarrow> parentId node \<noteq> Some []"
  by (auto simp add: EVOLUTION_TREE_def)

lemma tree_node_by_id:
  assumes "node \<in> set EVOLUTION_TREE" "node' \<in> set EVOLUTION_TREE" "id_n node = id_n node'"
  shows "node = node'"
  using assms tree_ids_distinct by (meson distinct_map inj_onD)

lemma scanNodes_sound:
  "u \<in> set (fst (scanNodes cu t es ps nodes)) \<Longrightarrow>
   \<exists>node \<in> set nodes. id_n node = u \<and> u \<notin> set cu
       \<and> (noParent node \<or> parentUnlocked cu node)
       \<and> checkEvolutionCondition u t es ps"
proof (induction nodes)
  case Nil
  then show ?case by simp
next
  case (Cons n ns)
  then show ?case
    by (auto simp add: Let_def split: prod.splits if_splits)
qed

lemma scanNodes_complete:
  "node \<in> set nodes \<Longrightarrow> id_n node \<notin> set cu \<Longrightarrow> noParent node \<or> parentUnlocked cu node \<Longrightarrow>
   checkEvolutionCondition (id_n node) t es ps \<Longrightarrow>
   id_n node \<in> set (fst (scanNodes cu t es ps nodes))"
  by (induction nodes) (auto simp add: Let_def split: prod.splits if_splits)

lemma set_evolutionScan:
  "set (fst (evolutionScan cu t es ps)) = set cu \<union> set (fst (scanNodes cu t es ps EVOLUTION_TREE))"
  by (auto simp add: evolutionScan_def split: prod.splits)

lemma gatingOk_evolutionScan:
  assumes "gatingOk cu"
  shows "gatingOk (fst (evolutionScan cu t es ps))"
  unfolding gatingOk_def list_all_iff
proof (intro ballI impI)
  fix node
  assume n: "node \<in> set EVOLUTION_TREE"
    and u: "id_n node \<in> set (fst (evolutionScan cu t es ps))"
  let ?U = "set (fst (evolutionScan cu t es ps))"
  have sub: "set cu \<subseteq> ?U" by (simp add: set_evolutionScan)
  show "case parentId node of None \<Rightarrow> True | Some p \<Rightarrow> p \<in> ?U"
  proof (cases "id_n node \<in> set cu")
    case True
    with assms n have "case parentId node of None \<Rightarrow> True | Some p \<Rightarrow> p \<in> set cu"
      by (simp add: gatingOk_def list_all_iff)
    with sub show ?thesis by (auto split: option.splits)
  next
    case False
    with u have "id_n node \<in> set (fst (scanNodes cu t es ps EVOLUTION_TREE))"
      by (simp add: set_evolutionScan)
    then obtain node' where n': "node' \<in> set EVOLUTION_TREE" "id_n node' = id_n node"
      and p: "noParent node' \<or> parentUnlocked cu node'"
      using scanNodes_sound by blast
    from n n' have "node' = node" by (simp add: tree_node_by_id)
    with p tree_parent_nonempty [OF n] sub show ?thesis
      by (auto simp add: noParent_def parentUnlocked_def split: option.splits)
  qed
qed

lemma gatingOk_Nil: "gatingOk []"
  by (simp add: gatingOk_def list_all_iff)

lemma gatingOk_runScans: "gatingOk u \<Longrightarrow> gatingOk (runScans u ws)"
  by (induction u ws rule: runScans.induct) (simp_all add: gatingOk_evolutionScan)

text \<open>
  C8. In every state reached by any sequence of lifecycle ticks from the empty unlocked
  list, whatever the world looks like at each tick, every unlocked node of the tree that
  has a \<open>parentId\<close> has that parent unlocked too. Nodes that unlock in the same scan are
  all judged against the snapshot taken before the scan, so a child never enters
  together with (or before) its parent.
\<close>

theorem unlocked_respects_gating: "gatingOk (runScans [] worlds)"
  by (rule gatingOk_runScans [OF gatingOk_Nil])

lemma sampleLoop_water:
  "sampleLoop (oceanTerrain) 0 c = c\<lparr>waterCount := waterCount c + 820\<rparr>"
  by (simp add: oceanTerrain_def flatTerrain_def MAP_SIZE_def sampleCell_def arrayGet_def lt_js_def SEA_LEVEL_def)

lemma run2: "runScans [] [(oceanTerrain, [], []), (oceanTerrain, [], [])] = 
  [''origin_water'', ''flora_algae'', ''life_fish'']"
  by (simp add: evolutionScan_def EVOLUTION_TREE_def checkEvolutionCondition_def sampleLoop_water
     noParent_def parentUnlocked_def del: sampleLoop.simps)

theorem unlocked_respects_gating_witness:
  "''life_fish'' \<in> set (runScans [] [(oceanTerrain, [], []), (oceanTerrain, [], [])])
   \<and> ''origin_water'' \<in> set (runScans [] [(oceanTerrain, [], []), (oceanTerrain, [], [])])
   \<and> gatingOk (runScans [] [(oceanTerrain, [], []), (oceanTerrain, [], [])])"
  using unlocked_respects_gating [of "[(oceanTerrain, [], []), (oceanTerrain, [], [])]"]
  by (simp only: run2) simp

subsection \<open>The root node origin_water\<close>

lemma scanNodes_notes:
  "node \<in> set nodes \<Longrightarrow> id_n node \<notin> set cu \<Longrightarrow> noParent node \<or> parentUnlocked cu node \<Longrightarrow>
   checkEvolutionCondition (id_n node) t es ps \<Longrightarrow>
   \<lparr> title_c = ''Evolution Unlocked!'', message_c = title node, icon_c = icon node \<rparr>
     \<in> set (snd (scanNodes cu t es ps nodes))"
  by (induction nodes) (auto simp add: Let_def split: prod.splits if_splits)

lemma check_origin_water: "checkEvolutionCondition ''origin_water'' tData entities plants"
  by (simp add: checkEvolutionCondition_def Let_def del: sampleLoop.simps)

lemma originWaterNode_facts:
  "originWaterNode \<in> set EVOLUTION_TREE" "id_n originWaterNode = ''origin_water''"
  "noParent originWaterNode" "title originWaterNode = ''Primordial Soup''"
  "icon originWaterNode = ''Waves''"
  by (simp_all add: originWaterNode_def EVOLUTION_TREE_def noParent_def)

text \<open>
  C10. The predicate of the root node \<open>origin_water\<close> is true for every terrain, entity
  list and plant list; so the scan of the first lifecycle tick (empty unlocked list)
  unlocks \<open>origin_water\<close> and calls \<^verbatim>\<open>addNotification\<close> for it, whatever the world is.
\<close>

theorem origin_water_unconditional:
  "checkEvolutionCondition ''origin_water'' tData entities plants
   \<and> ''origin_water'' \<in> set (fst (evolutionScan [] tData entities plants))
   \<and> \<lparr> title_c = ''Evolution Unlocked!'', message_c = ''Primordial Soup'', icon_c = ''Waves'' \<rparr>
       \<in> set (snd (evolutionScan [] tData entities plants))"
proof -
  have c: "checkEvolutionCondition (id_n originWaterNode) tData entities plants"
    by (simp add: originWaterNode_facts check_origin_water)
  have u: "id_n originWaterNode \<in> set (fst (scanNodes [] tData entities plants EVOLUTION_TREE))"
    by (rule scanNodes_complete) (simp_all add: originWaterNode_facts check_origin_water)
  have n: "\<lparr> title_c = ''Evolution Unlocked!'', message_c = title originWaterNode,
             icon_c = icon originWaterNode \<rparr>
           \<in> set (snd (scanNodes [] tData entities plants EVOLUTION_TREE))"
    by (rule scanNodes_notes) (simp_all add: originWaterNode_facts check_origin_water)
  have s: "snd (evolutionScan [] tData entities plants)
           = snd (scanNodes [] tData entities plants EVOLUTION_TREE)"
    by (simp add: evolutionScan_def split: prod.splits)
  from u have "''origin_water'' \<in> set (fst (evolutionScan [] tData entities plants))"
    by (simp add: set_evolutionScan originWaterNode_facts)
  moreover from n have "\<lparr> title_c = ''Evolution Unlocked!'', message_c = ''Primordial Soup'',
      icon_c = ''Waves'' \<rparr> \<in> set (snd (evolutionScan [] tData entities plants))"
    by (simp add: s originWaterNode_facts)
  ultimately show ?thesis by (simp add: check_origin_water)
qed

subsection \<open>Species constraints\<close>

text \<open>
  C4, as stated: the movement legality check accepts a height exactly when target
  validation accepts it. It does not: a fish may move over terrain of height 0.25, which
  is never a valid fish target.
\<close>

theorem species_checks_differ_counterexample:
  "\<not> (canMove FISH (1 / 4) \<longleftrightarrow> targetValid FISH (1 / 4))"
  by (simp add: canMove_def targetValid_def SEA_LEVEL_def)

text \<open>
  C4, amended. For every species and every height, a height that target validation accepts
  is accepted by the movement legality check; the two differ exactly as follows: a fish may
  also move over heights from sea level - 1 up to sea level - 0.5 and over the off-grid
  sentinel, a bird may also move over the sentinel, an amphibian may also move at exactly
  sea level - 2 and sea level + 2, and the land species may also move at exactly sea level.
\<close>

theorem targetValid_stricter_than_canMove:
  "(targetValid ty h \<longrightarrow> canMove ty h)
   \<and> (canMove ty h \<longleftrightarrow>
        targetValid ty h
        \<or> (ty = FISH \<and> (h = - 10 \<or> (SEA_LEVEL - 1 \<le> h \<and> h \<le> SEA_LEVEL - 1 / 2)))
        \<or> (ty = BIRD \<and> h = - 10)
        \<or> (ty = AMPHIBIAN \<and> (h = SEA_LEVEL - 2 \<or> h = SEA_LEVEL + 2))
        \<or> (ty \<in> {REPTILE, MAMMAL, PRIMATE} \<and> h = SEA_LEVEL))"
  by (cases ty) (auto simp add: canMove_def targetValid_def SEA_LEVEL_def)

theorem targetValid_stricter_than_canMove_witness:
  "targetValid FISH (- 2) \<and> canMove FISH (- 2)"
  using targetValid_stricter_than_canMove [of FISH "- 2"]
  by (simp add: targetValid_def SEA_LEVEL_def)

subsection \<open>Geologic events\<close>

lemma eventStep_expired: "life evt - dt \<le> 0 \<Longrightarrow> eventStep dt evt st = st"
  by (simp add: eventStep_def Let_def)

lemma fold_eventStep_expired:
  "life evt - dt \<le> 0 \<Longrightarrow>
   fold (eventStep dt) (before @ evt # after) st = fold (eventStep dt) (before @ after) st"
  by (simp add: eventStep_expired)

text \<open>
  C5, as stated: an event whose life crosses zero in the tick still adds its influence
  \<open>(1 - dist / radius) * strength * dt\<close> to the cells within its radius. It does not:
  for an event with one tick of life left and \<open>dt = 1\<close>, the cell under its centre
  (distance 0, index \<open>64 * 128 + 64\<close>) keeps its height.
\<close>

theorem expired_event_has_no_influence_counterexample:
  "\<not> (fst (fst (eventProcessing 1 (heights oceanTerrain, False) [lastTickEvent])) ! 8256
       = heights oceanTerrain ! 8256 + (1 - 0 / radius lastTickEvent) * strength lastTickEvent * 1)"
  by (simp add: eventProcessing_def eventStep_def lastTickEvent_def)

lemma eventProcessing_fold: "eventProcessing dt st events = fold (eventStep dt) events (st, [])"
  by (cases events) (simp_all add: eventProcessing_def)

lemma eventStep_queue_alive:
  "list_all (\<lambda>e. life e > 0) (snd st) \<Longrightarrow> list_all (\<lambda>e. life e > 0) (snd (eventStep dt evt st))"
  by (simp add: eventStep_def Let_def)

lemma fold_eventStep_queue_alive:
  "list_all (\<lambda>e. life e > 0) (snd st) \<Longrightarrow>
   list_all (\<lambda>e. life e > 0) (snd (fold (eventStep dt) events st))"
proof (induction events arbitrary: st)
  case Nil
  then show ?case by simp
next
  case (Cons e es)
  from Cons.prems have "list_all (\<lambda>e. life e > 0) (snd (eventStep dt e st))"
    by (rule eventStep_queue_alive)
  then show ?case using Cons.IH by simp
qed

text \<open>
  C5, amended. An event whose remaining life crosses zero during the tick
  (\<open>life - dt \<le> 0\<close>) applies no influence in that tick and is not kept: the pass has the
  same result (heights, modified flag and queue) as if the event had not been in the queue,
  and every event left in the queue has positive life.
\<close>

theorem expired_event_dropped_without_influence:
  assumes "life evt - dt \<le> 0"
  shows "eventProcessing dt st (before @ evt # after) = eventProcessing dt st (before @ after)
    \<and> list_all (\<lambda>e. life e > 0) (snd (eventProcessing dt st (before @ evt # after)))"
proof
  show "eventProcessing dt st (before @ evt # after) = eventProcessing dt st (before @ after)"
    using assms by (simp only: eventProcessing_fold fold_eventStep_expired)
  show "list_all (\<lambda>e. life e > 0) (snd (eventProcessing dt st (before @ evt # after)))"
    unfolding eventProcessing_fold by (rule fold_eventStep_queue_alive) simp
qed

theorem expired_event_dropped_without_influence_witness:
  "life lastTickEvent - 1 \<le> 0
   \<and> eventProcessing 1 (heights oceanTerrain, False) [lastTickEvent]
       = ((heights oceanTerrain, False), [])"
  using expired_event_dropped_without_influence
    [of lastTickEvent 1 "(heights oceanTerrain, False)" "[]" "[]"]
  by (simp add: lastTickEvent_def eventProcessing_def)

subsection \<open>Vegetation growth\<close>

text \<open>
  C6, as stated: a sampled cell deeper than sea level - 8 has its vegetation set to zero.
  It does not: at height \<open>-10\<close> the marine rule applies and vegetation 0.3 stays 0.3.
\<close>

theorem deep_cell_not_zeroed_counterexample:
  "\<not> (- 10 < SEA_LEVEL - 8 \<longrightarrow> growCell mildWeather 1 (- 10) (1 / 2) (3 / 10) (9 / 10) = 0)"
  by (simp add: growCell_def marineRule_def SEA_LEVEL_def)

text \<open>
  C6, amended. The growth update applies the marine rule (with a small probability an
  increment of \<open>0.02 * dt\<close>, the result capped at 0.5) exactly to the sampled cells whose
  height is below sea level - 1, with no lower bound on the depth; it sets vegetation to
  zero on the sampled cells whose height lies from sea level - 1 to sea level (the
  transition zone), and applies the land rule above sea level.
\<close>

theorem marine_rule_below_sea_minus_one:
  "(h < SEA_LEVEL - 1 \<longrightarrow> growCell weather dt h m v rnd = marineRule dt v rnd)
   \<and> (SEA_LEVEL - 1 \<le> h \<and> h \<le> SEA_LEVEL \<longrightarrow> growCell weather dt h m v rnd = 0)
   \<and> (SEA_LEVEL < h \<longrightarrow> growCell weather dt h m v rnd = landRule weather dt m v rnd)
   \<and> marineRule dt v rnd \<le> 1 / 2
   \<and> (v < 1 / 2 \<and> rnd < 0.05 * dt \<longrightarrow> marineRule dt v rnd = min (1 / 2) (v + 0.02 * dt))
   \<and> (\<not> (v < 1 / 2 \<and> rnd < 0.05 * dt) \<longrightarrow> marineRule dt v rnd = min (1 / 2) v)"
  by (auto simp add: growCell_def marineRule_def SEA_LEVEL_def min_def)

theorem marine_rule_below_sea_minus_one_witness:
  "- 10 < SEA_LEVEL - 1 \<and> growCell mildWeather 1 (- 10) (1 / 2) (3 / 10) (1 / 100) = 8 / 25
   \<and> SEA_LEVEL - 1 \<le> 1 / 2 \<and> 1 / 2 \<le> SEA_LEVEL \<and> growCell mildWeather 1 (1 / 2) (1 / 2) (3 / 10) (1 / 100) = 0
   \<and> SEA_LEVEL < 2 \<and> growCell mildWeather 1 2 (1 / 2) (3 / 10) (1 / 100) = landRule mildWeather 1 (1 / 2) (3 / 10) (1 / 100)"
  using marine_rule_below_sea_minus_one [of "- 10" mildWeather 1 "1 / 2" "3 / 10" "1 / 100"]
    marine_rule_below_sea_minus_one [of "1 / 2" mildWeather 1 "1 / 2" "3 / 10" "1 / 100"]
    marine_rule_below_sea_minus_one [of 2 mildWeather 1 "1 / 2" "3 / 10" "1 / 100"]
  by (simp add: SEA_LEVEL_def marineRule_def)

subsection \<open>Ranges of moisture and vegetation\<close>

lemma list_all_update:
  assumes "list_all P xs" and "i < length xs \<Longrightarrow> P (xs ! i) \<Longrightarrow> P v"
  shows "list_all P (xs[i := v])"
proof (cases "i < length xs")
  case True
  with assms show ?thesis
    by (simp add: list_all_length nth_list_update)
next
  case False
  with assms(1) show ?thesis by (simp add: list_update_beyond)
qed

lemma fold_preserves:
  "(\<And>x s. P s \<Longrightarrow> P (f x s)) \<Longrightarrow> P s \<Longrightarrow> P (fold f xs s)"
  by (induction xs arbitrary: s) simp_all

lemma brush_falloff:
  fixes d r :: real
  assumes "0 \<le> r" "d \<le> r" "0 \<le> d"
  shows "0 \<le> 1 - d / (r + 1) \<and> 1 - d / (r + 1) \<le> 1"
proof -
  from assms have "d / (r + 1) \<le> 1" by (simp add: field_simps)
  moreover from assms have "0 \<le> d / (r + 1)" by simp
  ultimately show ?thesis by simp
qed

lemma brushCell_unitRanges:
  assumes inv: "unitRanges t" and r: "0 \<le> brushRad"
  shows "unitRanges (brushCell gameMode brushRad cx cz dx dz t)"
proof -
  define d where "d = sqrt (real_of_int (dx * dx + dz * dz))"
  define f where "f = 1 - d / (real_of_int brushRad + 1)"
  define idx where "idx = nat ((cz + dz) * int MAP_SIZE + (cx + dx))"
  have d0: "0 \<le> d" by (simp add: d_def)
  show ?thesis
  proof (cases "cx + dx < 0 \<or> cx + dx \<ge> int MAP_SIZE \<or> cz + dz < 0 \<or> cz + dz \<ge> int MAP_SIZE
                \<or> d > real_of_int brushRad")
    case True
    have "brushCell gameMode brushRad cx cz dx dz t = t"
    proof (cases "cx + dx < 0 \<or> cx + dx \<ge> int MAP_SIZE \<or> cz + dz < 0 \<or> cz + dz \<ge> int MAP_SIZE")
      case True
      then show ?thesis by (simp add: brushCell_def Let_def)
    next
      case False
      with True have "d > real_of_int brushRad" by simp
      with False show ?thesis by (simp add: brushCell_def Let_def d_def)
    qed
    with inv show ?thesis by simp
  next
    case False
    then have "d \<le> real_of_int brushRad" by simp
    with r d0 have f: "0 \<le> f \<and> f \<le> 1"
      unfolding f_def by (intro brush_falloff) simp_all
    from inv have m: "list_all (\<lambda>m. 0 \<le> m \<and> m \<le> 1) (moisture t)"
      and v: "list_all (\<lambda>v. 0 \<le> v \<and> v \<le> 1) (vegetation t)"
      by (simp_all add: unitRanges_def)
    have add: "list_all (\<lambda>m. 0 \<le> m \<and> m \<le> 1)
                 ((moisture t)[idx := min 1 (moisture t ! idx + 0.1 * f)])"
      using m by (rule list_all_update) (use f in auto)
    have sub: "list_all (\<lambda>m. 0 \<le> m \<and> m \<le> 1)
                 ((moisture t)[idx := max 0 (moisture t ! idx - 0.1 * f)])"
      using m by (rule list_all_update) (use f in auto)
    have eq: "brushCell gameMode brushRad cx cz dx dz t =
      (case gameMode of
         RISE \<Rightarrow> t\<lparr> heights := (heights t)[idx := heights t ! idx + 0.5 * f] \<rparr>
       | LOWER \<Rightarrow> t\<lparr> heights := (heights t)[idx := heights t ! idx - 0.5 * f] \<rparr>
       | RAIN_ADD \<Rightarrow> t\<lparr> moisture := (moisture t)[idx := min 1 (moisture t ! idx + 0.1 * f)] \<rparr>
       | RAIN_SUB \<Rightarrow> t\<lparr> moisture := (moisture t)[idx := max 0 (moisture t ! idx - 0.1 * f)] \<rparr>
       | VIEW \<Rightarrow> t)"
      using False by (cases gameMode) (simp_all add: brushCell_def Let_def d_def f_def idx_def)
    show ?thesis
      unfolding eq using m v add sub
      by (cases gameMode) (simp_all add: unitRanges_def)
  qed
qed

lemma handleInteract_unitRanges:
  assumes "unitRanges t"
  shows "unitRanges (handleInteract gameMode brushSize px pz t)"
proof -
  define r where "r = int (brushSize div 2)"
  have r0: "0 \<le> r" by (simp add: r_def)
  have inner: "unitRanges (fold (\<lambda>dz. brushCell gameMode r cx cz dx dz) zs s)"
    if "unitRanges s" for cx cz dx zs s
    using _ that by (rule fold_preserves) (simp add: brushCell_unitRanges r0)
  have outer: "unitRanges (fold (\<lambda>dx. fold (\<lambda>dz. brushCell gameMode r cx cz dx dz) zs) xs s)"
    if "unitRanges s" for cx cz xs zs s
    using _ that by (rule fold_preserves) (simp add: inner)
  show ?thesis
    using assms by (simp add: handleInteract_def Let_def outer r_def [symmetric])
qed

lemma marineRule_range: "0 \<le> v \<Longrightarrow> 0 < dt \<Longrightarrow> 0 \<le> marineRule dt v rnd \<and> marineRule dt v rnd \<le> 1 / 2"
  by (auto simp add: marineRule_def Let_def min_def)

lemma landRule_range: "0 \<le> landRule w dt m v rnd \<and> landRule w dt m v rnd \<le> 1"
  by (simp add: landRule_def Let_def)

lemma growCell_range:
  "0 \<le> v \<Longrightarrow> 0 < dt \<Longrightarrow> 0 \<le> growCell w dt h m v rnd \<and> growCell w dt h m v rnd \<le> 1"
  using marineRule_range [of v dt rnd] landRule_range [of w dt m v rnd]
  by (auto simp add: growCell_def)

lemma growthSample_unitRanges:
  assumes inv: "unitRanges t" and dt: "0 < dt"
  shows "unitRanges (growthSample w dt d t)"
proof -
  define i where "i = nat (sampledIndex d)"
  define v where "v = growCell w dt (heights t ! i) (moisture t ! i) (vegetation t ! i) (g_rnd d)"
  from inv have veg: "list_all (\<lambda>v. 0 \<le> v \<and> v \<le> 1) (vegetation t)"
    by (simp add: unitRanges_def)
  have "list_all (\<lambda>v. 0 \<le> v \<and> v \<le> 1) ((vegetation t)[i := v])"
    using veg by (rule list_all_update) (use dt in \<open>simp add: v_def growCell_range\<close>)
  then have upd: "unitRanges (t\<lparr> vegetation := (vegetation t)[i := v] \<rparr>)"
    using inv by (simp add: unitRanges_def)
  have "growthSample w dt d t = t \<or> growthSample w dt d t = t\<lparr> vegetation := (vegetation t)[i := v] \<rparr>"
    by (simp add: growthSample_def sampledIndex_def Let_def i_def v_def)
  with inv upd show ?thesis by auto
qed

lemma vegetationGrowth_unitRanges:
  "unitRanges t \<Longrightarrow> 0 < dt \<Longrightarrow> unitRanges (vegetationGrowth w dt draws t)"
  unfolding vegetationGrowth_def
  by (rule fold_preserves) (simp_all add: growthSample_unitRanges)


lemma grazing_vegOk:
  assumes "vegOk veg"
  shows "vegOk (snd (grazing dt e veg))"
proof -
  define i where "i = nat (\<lfloor>z_e e + real MAP_SIZE / 2\<rfloor> * int MAP_SIZE + \<lfloor>x_e e + real MAP_SIZE / 2\<rfloor>)"
  have "snd (grazing dt e veg) = veg
        \<or> (snd (grazing dt e veg) = veg[i := veg ! i - 0.05] \<and> veg ! i > 0.05)"
    by (auto simp add: grazing_def Let_def i_def)
  moreover have "veg ! i > 0.05 \<Longrightarrow> vegOk (veg[i := veg ! i - 0.05])"
    using assms unfolding vegOk_def by (rule list_all_update) simp
  ultimately show ?thesis using assms by auto
qed

lemma feedOne_veg:
  "fst (snd (feedOne dt all e st)) = fst st
   \<or> fst (snd (feedOne dt all e st)) = snd (grazing dt e (fst st))"
  by (simp add: feedOne_def Let_def case_prod_beta)

lemma feedOne_vegOk: "vegOk (fst st) \<Longrightarrow> vegOk (fst (snd (feedOne dt all e st)))"
  using grazing_vegOk [of "fst st" dt e] feedOne_veg [of dt all e st] by auto

lemma feedLoop_Cons:
  "feedLoop dt all (e # es) st =
    (fst (feedOne dt all e st) # fst (feedLoop dt all es (snd (feedOne dt all e st))),
     snd (feedLoop dt all es (snd (feedOne dt all e st))))"
  by (simp add: Let_def case_prod_beta)

lemma feedLoop_vegOk: "vegOk (fst st) \<Longrightarrow> vegOk (fst (snd (feedLoop dt all es st)))"
proof (induction es arbitrary: st)
  case Nil
  then show ?case by simp
next
  case (Cons e es)
  from Cons.prems have "vegOk (fst (snd (feedOne dt all e st)))" by (rule feedOne_vegOk)
  from Cons.IH [OF this] show ?case
    by (simp only: feedLoop_Cons snd_conv)
qed

lemma lifecyclePass_terrain:
  "snd (lifecyclePass dt t draws es)
   = t\<lparr> vegetation := fst (snd (feedLoop dt (map (ageStep dt) es) (map (ageStep dt) es) (vegetation t, []))) \<rparr>"
  by (simp add: lifecyclePass_def Let_def case_prod_beta)

lemma lifecyclePass_unitRanges:
  "unitRanges t \<Longrightarrow> unitRanges (snd (lifecyclePass dt t draws es))"
  using feedLoop_vegOk [of "(vegetation t, [])" dt "map (ageStep dt) es" "map (ageStep dt) es"]
  by (simp add: lifecyclePass_terrain unitRanges_def vegOk_def)


lemma applyOp_unitRanges: "unitRanges t \<Longrightarrow> unitRanges (applyOp op t)"
  by (cases op)
    (simp_all add: handleInteract_unitRanges vegetationGrowth_unitRanges lifecyclePass_unitRanges)

lemma growthSample_sampled_cell:
  assumes "0 \<le> sampledIndex d" "nat (sampledIndex d) < length (heights t)"
    "nat (sampledIndex d) < length (moisture t)" "nat (sampledIndex d) < length (vegetation t)"
  shows "vegetation (growthSample w dt d t) ! nat (sampledIndex d)
         = growCell w dt (heights t ! nat (sampledIndex d)) (moisture t ! nat (sampledIndex d))
             (vegetation t ! nat (sampledIndex d)) (g_rnd d)"
  using assms by (simp add: growthSample_def sampledIndex_def Let_def)


lemma shore_unit: "unitRanges shoreTerrain"
  by (simp add: unitRanges_def shoreTerrain_def flatTerrain_def list_all_length)

lemma shore_declared: "declaredRanges shoreTerrain"
  by (simp add: declaredRanges_def shoreTerrain_def flatTerrain_def list_all_iff SEA_LEVEL_def)

lemma fold_fixpoint: "g s = s \<Longrightarrow> fold (\<lambda>i. g) xs s = s"
  by (induction xs) simp_all

lemma upt_400: "[0..<400] = 0 # Suc 0 # [Suc (Suc 0)..<400]"
  by (simp add: upt_conv_Cons)

lemma grow_shore_0:
  "growthSample mildWeather 10 centreDraw shoreTerrain
   = shoreTerrain\<lparr> vegetation := (vegetation shoreTerrain)[8256 := 3 / 5] \<rparr>"
  by (simp add: growthSample_def centreDraw_def shoreTerrain_def flatTerrain_def
      MAP_SIZE_def growCell_def landRule_def mildWeather_def SEA_LEVEL_def Let_def)

lemma grow_shore_1:
  "growthSample mildWeather 10 centreDraw
     (shoreTerrain\<lparr> vegetation := (vegetation shoreTerrain)[8256 := 3 / 5] \<rparr>)
   = shoreTerrain\<lparr> vegetation := (vegetation shoreTerrain)[8256 := 1] \<rparr>"
  by (simp add: growthSample_def centreDraw_def shoreTerrain_def flatTerrain_def
      MAP_SIZE_def growCell_def landRule_def mildWeather_def SEA_LEVEL_def Let_def)

lemma grow_shore_2:
  "growthSample mildWeather 10 centreDraw
     (shoreTerrain\<lparr> vegetation := (vegetation shoreTerrain)[8256 := 1] \<rparr>)
   = shoreTerrain\<lparr> vegetation := (vegetation shoreTerrain)[8256 := 1] \<rparr>"
  by (simp add: growthSample_def centreDraw_def shoreTerrain_def flatTerrain_def
      MAP_SIZE_def growCell_def landRule_def mildWeather_def SEA_LEVEL_def Let_def)

lemma grown: "vegetationGrowth mildWeather 10 (\<lambda>i. centreDraw) shoreTerrain
  = shoreTerrain\<lparr> vegetation := (vegetation shoreTerrain)[8256 := 1] \<rparr>"
  unfolding vegetationGrowth_def upt_400
  by (simp only: fold_simps o_apply grow_shore_0 grow_shore_1 fold_fixpoint [of "growthSample mildWeather 10 centreDraw", OF grow_shore_2])

lemma upto_0: "[0..0::int] = [0]" "[- 0..0::int] = [0]"
  by (simp_all add: upto.simps)

lemma lowered:
  "handleInteract LOWER (Suc 0) 0 0 (shoreTerrain\<lparr> vegetation := (vegetation shoreTerrain)[8256 := 1] \<rparr>)
   = shoreTerrain\<lparr> vegetation := (vegetation shoreTerrain)[8256 := 1],
       heights := (heights shoreTerrain)[8256 := 3 / 4] \<rparr>"
  by (simp add: handleInteract_def jsRound_def MAP_SIZE_def Let_def upto_0)
    (simp add: brushCell_def MAP_SIZE_def Let_def shoreTerrain_def flatTerrain_def)

lemma after_ops:
  "applyOps [GrowthUpdate mildWeather 10 (\<lambda>i. centreDraw), BrushEdit LOWER 1 0 0] shoreTerrain
   = shoreTerrain\<lparr> vegetation := (vegetation shoreTerrain)[8256 := 1],
       heights := (heights shoreTerrain)[8256 := 3 / 4] \<rparr>"
  by (simp add: applyOps_def grown lowered)

text \<open>
  C3, as stated: after any sequence of brush edits, growth updates and feeding, vegetation
  lies in \<open>[0, 0.5]\<close> on every cell below sea level. It does not: on a seeded shore a
  growth update raises the vegetation of the sampled cell to 1, and a LOWER brush edit
  then takes that cell from height 1.25 to 0.75, below sea level, with its vegetation
  untouched.
\<close>

theorem declared_ranges_broken_counterexample:
  "declaredRanges shoreTerrain
   \<and> \<not> declaredRanges
         (applyOps [GrowthUpdate mildWeather 10 (\<lambda>i. centreDraw), BrushEdit LOWER 1 0 0] shoreTerrain)"
proof -
  have n: "\<not> declaredRanges (shoreTerrain\<lparr> vegetation := (vegetation shoreTerrain)[8256 := 1],
       heights := (heights shoreTerrain)[8256 := 3 / 4] \<rparr>)"
    unfolding declaredRanges_def list_all_iff
    by (simp add: shoreTerrain_def flatTerrain_def MAP_SIZE_def SEA_LEVEL_def)
      (rule bexI [of _ 8256], simp_all)
  show ?thesis unfolding after_ops using shore_declared n by (rule conjI)
qed

text \<open>
  C3, amended. If every moisture cell and every vegetation cell lies in \<open>[0, 1]\<close>, then
  so it is after any sequence of brush edits, vegetation growth updates and feeding
  passes. The bound \<open>[0, 0.5]\<close> below sea level holds for a cell when a growth update
  samples it: the sampled cell of a growth sample, if below sea level, has vegetation in
  \<open>[0, 0.5]\<close> after the sample. It is not kept by edits of the height.
\<close>

theorem brush_growth_feeding_keep_unit_ranges:
  "(unitRanges tData \<longrightarrow> unitRanges (applyOps ops tData))
   \<and> (unitRanges tData \<and> 0 < dt \<and> 0 \<le> sampledIndex d
        \<and> nat (sampledIndex d) < length (heights tData)
        \<and> nat (sampledIndex d) < length (moisture tData)
        \<and> nat (sampledIndex d) < length (vegetation tData)
        \<and> heights tData ! nat (sampledIndex d) < SEA_LEVEL
      \<longrightarrow> 0 \<le> vegetation (growthSample weather dt d tData) ! nat (sampledIndex d)
          \<and> vegetation (growthSample weather dt d tData) ! nat (sampledIndex d) \<le> 1 / 2)"
proof (intro conjI impI)
  assume "unitRanges tData"
  then show "unitRanges (applyOps ops tData)"
    unfolding applyOps_def by (rule fold_preserves [rotated]) (rule applyOp_unitRanges)
next
  assume a: "unitRanges tData \<and> 0 < dt \<and> 0 \<le> sampledIndex d
        \<and> nat (sampledIndex d) < length (heights tData)
        \<and> nat (sampledIndex d) < length (moisture tData)
        \<and> nat (sampledIndex d) < length (vegetation tData)
        \<and> heights tData ! nat (sampledIndex d) < SEA_LEVEL"
  let ?i = "nat (sampledIndex d)"
  from a have v0: "0 \<le> vegetation tData ! ?i"
    by (simp add: unitRanges_def list_all_length)
  have eq: "vegetation (growthSample weather dt d tData) ! ?i
        = growCell weather dt (heights tData ! ?i) (moisture tData ! ?i) (vegetation tData ! ?i) (g_rnd d)"
    using a by (simp add: growthSample_sampled_cell)
  have "growCell weather dt (heights tData ! ?i) (moisture tData ! ?i) (vegetation tData ! ?i) (g_rnd d)
        = marineRule dt (vegetation tData ! ?i) (g_rnd d)
      \<or> growCell weather dt (heights tData ! ?i) (moisture tData ! ?i) (vegetation tData ! ?i) (g_rnd d) = 0"
    using a by (simp add: growCell_def)
  with marineRule_range [OF v0, of dt "g_rnd d"] a
  have "0 \<le> growCell weather dt (heights tData ! ?i) (moisture tData ! ?i) (vegetation tData ! ?i) (g_rnd d)
      \<and> growCell weather dt (heights tData ! ?i) (moisture tData ! ?i) (vegetation tData ! ?i) (g_rnd d) \<le> 1 / 2"
    by auto
  then show "0 \<le> vegetation (growthSample weather dt d tData) ! ?i"
    and "vegetation (growthSample weather dt d tData) ! ?i \<le> 1 / 2"
    by (simp_all add: eq)
qed

theorem brush_growth_feeding_keep_unit_ranges_witness:
  "unitRanges shoreTerrain
   \<and> unitRanges (applyOps [GrowthUpdate mildWeather 10 (\<lambda>i. centreDraw), BrushEdit LOWER 1 0 0]
                   shoreTerrain)
   \<and> unitRanges oceanTerrain \<and> (0::real) < 1 \<and> 0 \<le> sampledIndex centreDraw
   \<and> nat (sampledIndex centreDraw) < length (heights oceanTerrain)
   \<and> nat (sampledIndex centreDraw) < length (moisture oceanTerrain)
   \<and> nat (sampledIndex centreDraw) < length (vegetation oceanTerrain)
   \<and> heights oceanTerrain ! nat (sampledIndex centreDraw) < SEA_LEVEL
   \<and> vegetation (growthSample mildWeather 1 centreDraw oceanTerrain) ! nat (sampledIndex centreDraw)
       \<le> 1 / 2"
proof -
  have o: "unitRanges oceanTerrain"
    by (simp add: unitRanges_def oceanTerrain_def flatTerrain_def list_all_length)
  have i: "sampledIndex centreDraw = 8256"
    by (simp add: sampledIndex_def centreDraw_def MAP_SIZE_def)
  have h: "0 \<le> sampledIndex centreDraw
   \<and> nat (sampledIndex centreDraw) < length (heights oceanTerrain)
   \<and> nat (sampledIndex centreDraw) < length (moisture oceanTerrain)
   \<and> nat (sampledIndex centreDraw) < length (vegetation oceanTerrain)
   \<and> heights oceanTerrain ! nat (sampledIndex centreDraw) < SEA_LEVEL"
    by (simp add: i oceanTerrain_def flatTerrain_def MAP_SIZE_def SEA_LEVEL_def)
  show ?thesis
    using brush_growth_feeding_keep_unit_ranges
      [of shoreTerrain "[GrowthUpdate mildWeather 10 (\<lambda>i. centreDraw), BrushEdit LOWER 1 0 0]"
          1 centreDraw mildWeather]
      brush_growth_feeding_keep_unit_ranges [of oceanTerrain "[]" 1 centreDraw mildWeather]
      shore_unit o h
    by simp
qed

subsection \<open>Lifecycle pass: culling\<close>

lemma sqrt_lt_2: "sqrt x < 2 \<longleftrightarrow> x < 4"
  using real_sqrt_less_iff [of x 4] by simp

lemma spent_fish_run:
  "fst (lifecyclePass 1 algaeTerrain stillDraws [spentFish])
   = [spentFish\<lparr> age := 11, energy := 99 / 10 \<rparr>]"
  by (simp add: lifecyclePass_def spentFish_def entityAt_def ageStep_def feedOne_def grazing_def
      algaeTerrain_def flatTerrain_def MAP_SIZE_def Let_def localCount_def)

text \<open>
  C2, as stated: an entity whose energy is at most 0 at the start of a lifecycle pass is
  absent when the pass completes. It is not always: feeding comes before culling, and a
  fish with energy 0 in water with algae grazes (energy \<open>0 - 0.1 + 10\<close>) and stays.
\<close>

theorem spent_fish_survives_counterexample:
  "energy spentFish \<le> 0
   \<and> id_e spentFish \<in> id_e ` set (fst (lifecyclePass 1 algaeTerrain stillDraws [spentFish]))"
  by (simp add: spent_fish_run) (simp add: spentFish_def entityAt_def)

lemma grazing_entity:
  "0 \<le> dt \<Longrightarrow> (fst (grazing dt e veg))\<lparr> energy := 0 \<rparr> = e\<lparr> energy := 0 \<rparr>
     \<and> energy (fst (grazing dt e veg)) \<le> energy e + 10
     \<and> diet (fst (grazing dt e veg)) = diet e"
  by (simp add: grazing_def Let_def)

lemma hunting_entity:
  "0 \<le> dt \<Longrightarrow> (fst (hunting dt all e c))\<lparr> energy := 0 \<rparr> = e\<lparr> energy := 0 \<rparr>
     \<and> energy (fst (hunting dt all e c)) \<le> energy e + 50"
  by (simp add: hunting_def split: option.splits)

lemma feedOne_fedFrom:
  assumes "0 \<le> dt"
  shows "fedFrom (fst (feedOne dt all e st)) e"
proof (cases "energy e \<ge> maxEnergy e")
  case True
  then show ?thesis by (cases "diet e") (simp_all add: feedOne_def fedFrom_def)
next
  case False
  define g where "g = fst (grazing dt e (fst st))"
  have g: "g\<lparr> energy := 0 \<rparr> = e\<lparr> energy := 0 \<rparr>" "energy g \<le> energy e + 10"
    using grazing_entity [OF assms, of e "fst st"] by (simp_all add: g_def)
  define hg where "hg = fst (hunting dt all g (snd st))"
  have hg: "hg\<lparr> energy := 0 \<rparr> = g\<lparr> energy := 0 \<rparr>" "energy hg \<le> energy g + 50"
    using hunting_entity [OF assms, of all g "snd st"] by (simp_all add: hg_def)
  define he where "he = fst (hunting dt all e (snd st))"
  have he: "he\<lparr> energy := 0 \<rparr> = e\<lparr> energy := 0 \<rparr>" "energy he \<le> energy e + 50"
    using hunting_entity [OF assms, of all e "snd st"] by (simp_all add: he_def)
  show ?thesis
  proof (cases "diet e")
    case HERBIVORE
    with False have "fst (feedOne dt all e st) = g"
      by (simp add: feedOne_def Let_def case_prod_beta g_def)
    with HERBIVORE g show ?thesis by (simp add: fedFrom_def)
  next
    case CARNIVORE
    with False have "fst (feedOne dt all e st) = he"
      by (simp add: feedOne_def Let_def case_prod_beta he_def)
    with CARNIVORE he show ?thesis by (simp add: fedFrom_def)
  next
    case OMNIVORE
    with False have "fst (feedOne dt all e st) = hg"
      by (simp add: feedOne_def Let_def case_prod_beta hg_def g_def)
    moreover from hg(1) g(1) have "hg\<lparr> energy := 0 \<rparr> = e\<lparr> energy := 0 \<rparr>" by simp
    moreover from hg(2) g(2) have "energy hg \<le> energy e + 60" by simp
    ultimately show ?thesis using OMNIVORE by (simp add: fedFrom_def)
  qed
qed

lemma feedLoop_fedFrom:
  "0 \<le> dt \<Longrightarrow> list_all2 fedFrom (fst (feedLoop dt all es st)) es"
proof (induction es arbitrary: st)
  case Nil
  then show ?case by simp
next
  case (Cons e es)
  then show ?case
    by (simp only: feedLoop_Cons fst_conv list_all2_Cons feedOne_fedFrom simp_thms)
qed

lemma fedFrom_fields:
  assumes "fedFrom e' e"
  shows "id_e e' = id_e e" "age e' = age e"
proof -
  from assms have eq: "e'\<lparr> energy := 0 \<rparr> = e\<lparr> energy := 0 \<rparr>" by (simp add: fedFrom_def)
  have "id_e (e'\<lparr> energy := 0 \<rparr>) = id_e (e\<lparr> energy := 0 \<rparr>)" by (simp only: eq)
  then show "id_e e' = id_e e" by simp
  have "age (e'\<lparr> energy := 0 \<rparr>) = age (e\<lparr> energy := 0 \<rparr>)" by (simp only: eq)
  then show "age e' = age e" by simp
qed


lemma list_all2_set1:
  "list_all2 R xs ys \<Longrightarrow> x \<in> set xs \<Longrightarrow> \<exists>y \<in> set ys. R x y"
  by (induction rule: list_all2_induct) auto

lemma lifecyclePass_entities:
  "fst (lifecyclePass dt t draws es) =
    (if length (survivors dt t es) < 200
     then fst (reproLoop (survivors dt t es) draws 0 (survivors dt t es))
          @ snd (reproLoop (survivors dt t es) draws 0 (survivors dt t es))
     else survivors dt t es)"
  by (simp add: lifecyclePass_def survivors_def Let_def case_prod_beta)

lemma reproLoop_Cons:
  "reproLoop all draws i (p # ps) =
    (if reproduces all p
     then (p\<lparr> energy := energy p * 0.6 \<rparr> # fst (reproLoop all draws (i + 1) ps),
           baby p (draws i) # snd (reproLoop all draws (i + 1) ps))
     else (p # fst (reproLoop all draws (i + 1) ps), snd (reproLoop all draws (i + 1) ps)))"
  by (simp add: Let_def case_prod_beta reproduces_def)

lemma reproLoop_parent_ids:
  "map id_e (fst (reproLoop all draws i ps)) = map id_e ps"
  by (induction ps arbitrary: i) (simp_all add: reproLoop_Cons del: reproLoop.simps(2))

lemma baby_id: "id_e (baby p d) = r_id d"
  by (simp add: baby_def Let_def)

lemma reproLoop_baby_ids:
  "b \<in> set (snd (reproLoop all draws i ps)) \<Longrightarrow> \<exists>j. id_e b = r_id (draws j)"
proof (induction ps arbitrary: i)
  case Nil
  then show ?case by simp
next
  case (Cons p ps)
  show ?case
  proof (cases "reproduces all p")
    case True
    with Cons.prems have "b = baby p (draws i) \<or> b \<in> set (snd (reproLoop all draws (i + 1) ps))"
      by (simp add: reproLoop_Cons del: reproLoop.simps(2))
    with Cons.IH show ?thesis by (auto simp add: baby_id)
  next
    case False
    with Cons.prems have "b \<in> set (snd (reproLoop all draws (i + 1) ps))"
      by (simp add: reproLoop_Cons del: reproLoop.simps(2))
    with Cons.IH show ?thesis by blast
  qed
qed

lemma vegLe_refl: "vegLe veg veg"
  by (simp add: vegLe_def)

lemma vegLe_trans: "vegLe a b \<Longrightarrow> vegLe b c \<Longrightarrow> vegLe a c"
  by (auto simp add: vegLe_def intro: order_trans)

lemma grazing_veg_cases:
  "snd (grazing dt e veg) = veg
   \<or> snd (grazing dt e veg) = veg[nat (grazeIndex e) := veg ! nat (grazeIndex e) - 0.05]"
  by (simp add: grazing_def grazeIndex_def Let_def)

lemma vegLe_update: "vegLe (veg[i := veg ! i - 0.05]) veg"
  by (cases "i < length veg") (auto simp add: vegLe_def nth_list_update list_update_beyond)

lemma grazing_vegLe: "vegLe (snd (grazing dt e veg)) veg"
  using grazing_veg_cases [of dt e veg] vegLe_update [of veg "nat (grazeIndex e)"]
  by (auto simp add: vegLe_refl)

lemma feedOne_vegLe: "vegLe (fst (snd (feedOne dt all e st))) (fst st)"
  using feedOne_veg [of dt all e st] grazing_vegLe [of dt e "fst st"]
  by (auto simp add: vegLe_refl)

lemma same_but_energy:
  assumes "g\<lparr> energy := 0 \<rparr> = e\<lparr> energy := 0 \<rparr>"
  shows "id_e g = id_e e" "x_e g = x_e e" "z_e g = z_e e"
proof -
  have "id_e (g\<lparr> energy := 0 \<rparr>) = id_e (e\<lparr> energy := 0 \<rparr>)" by (simp only: assms)
  then show "id_e g = id_e e" by simp
  have "x_e (g\<lparr> energy := 0 \<rparr>) = x_e (e\<lparr> energy := 0 \<rparr>)" by (simp only: assms)
  then show "x_e g = x_e e" by simp
  have "z_e (g\<lparr> energy := 0 \<rparr>) = z_e (e\<lparr> energy := 0 \<rparr>)" by (simp only: assms)
  then show "z_e g = z_e e" by simp
qed

lemma grazing_off_grid:
  "\<not> (0 \<le> grazeIndex e \<and> grazeIndex e < int (length veg)) \<Longrightarrow> fst (grazing dt e veg) = e"
  unfolding grazing_def grazeIndex_def Let_def by (simp only: if_False fst_conv)

lemma grazing_starved:
  assumes "0 \<le> grazeIndex e \<and> grazeIndex e < int (length veg)"
    and "\<not> veg ! nat (grazeIndex e) > grazeThreshold (type_e e)"
  shows "energy (fst (grazing dt e veg)) = energy e - dt"
proof -
  from assms(2) have "type_e e = FISH \<Longrightarrow> \<not> veg ! nat (grazeIndex e) > 0.05"
    "type_e e \<noteq> FISH \<Longrightarrow> \<not> veg ! nat (grazeIndex e) > 0.1"
    by (simp_all add: grazeThreshold_def split: if_splits)
  with assms(1) show ?thesis
    unfolding grazeIndex_def by (simp add: grazing_def Let_def)
qed

lemma cellCredit_cases:
  "\<not> (0 \<le> grazeIndex e \<and> grazeIndex e < int (length veg)) \<Longrightarrow> cellCredit dt veg e = 0"
  "0 \<le> grazeIndex e \<and> grazeIndex e < int (length veg) \<Longrightarrow>
     veg ! nat (grazeIndex e) > grazeThreshold (type_e e) \<Longrightarrow> cellCredit dt veg e = 10"
  "0 \<le> grazeIndex e \<and> grazeIndex e < int (length veg) \<Longrightarrow>
     \<not> veg ! nat (grazeIndex e) > grazeThreshold (type_e e) \<Longrightarrow> cellCredit dt veg e = - dt"
  unfolding cellCredit_def by (simp_all only: if_True if_False simp_thms)

lemma grazing_credit:
  assumes dt: "0 \<le> dt" and le: "vegLe veg veg0"
  shows "energy (fst (grazing dt e veg)) \<le> energy e + cellCredit dt veg0 e"
proof (cases "0 \<le> grazeIndex e \<and> grazeIndex e < int (length veg)")
  case False
  from le have len: "length veg0 = length veg" by (simp add: vegLe_def)
  from False have "cellCredit dt veg0 e = 0"
    by (intro cellCredit_cases(1)) (simp only: len simp_thms)
  moreover from False have "fst (grazing dt e veg) = e" by (rule grazing_off_grid)
  ultimately show ?thesis by simp
next
  case True
  define i where "i = nat (grazeIndex e)"
  from le have len: "length veg0 = length veg" by (simp add: vegLe_def)
  from True have r0: "0 \<le> grazeIndex e \<and> grazeIndex e < int (length veg0)"
    by (simp only: len simp_thms)
  then have i: "i < length veg0" unfolding i_def by linarith
  from le i have vi: "veg ! i \<le> veg0 ! i" by (simp add: vegLe_def)
  have up: "energy (fst (grazing dt e veg)) \<le> energy e + 10"
    using grazing_entity [OF dt, of e veg] by simp
  show ?thesis
  proof (cases "veg0 ! nat (grazeIndex e) > grazeThreshold (type_e e)")
    case True
    with r0 have "cellCredit dt veg0 e = 10" by (rule cellCredit_cases(2))
    with up show ?thesis by simp
  next
    case False
    with r0 have c: "cellCredit dt veg0 e = - dt" by (rule cellCredit_cases(3))
    from False vi have "\<not> veg ! nat (grazeIndex e) > grazeThreshold (type_e e)"
      by (simp add: i_def)
    with True have "energy (fst (grazing dt e veg)) = energy e - dt" by (rule grazing_starved)
    with c show ?thesis by simp
  qed
qed

lemma findPrey_Some: "findPrey all c e = Some p \<Longrightarrow> list_ex (nearOther e) all"
  by (auto simp add: findPrey_def nearOther_def find_Some_iff list_ex_iff)

lemma hunting_credit:
  assumes dt: "0 \<le> dt"
  shows "energy (fst (hunting dt all e c)) \<le> energy e + preyCredit dt all e"
proof (cases "findPrey all c e")
  case None
  with dt show ?thesis by (simp add: hunting_def preyCredit_def)
next
  case (Some p)
  then have "list_ex (nearOther e) all" by (rule findPrey_Some)
  with Some show ?thesis by (simp add: hunting_def preyCredit_def)
qed

lemma preyCredit_same:
  assumes "g\<lparr> energy := 0 \<rparr> = e\<lparr> energy := 0 \<rparr>"
  shows "preyCredit dt all g = preyCredit dt all e"
proof -
  have "nearOther g = nearOther e"
    by (rule ext) (simp add: nearOther_def same_but_energy [OF assms])
  then show ?thesis by (simp add: preyCredit_def)
qed


lemma feedOne_ceiling:
  assumes dt: "0 \<le> dt" and le: "vegLe (fst st) veg0"
  shows "energy (fst (feedOne dt all e st)) \<le> feedCeiling dt veg0 all e"
proof (cases "energy e \<ge> maxEnergy e")
  case True
  then show ?thesis by (simp add: feedOne_def feedCeiling_def)
next
  case False
  define g where "g = fst (grazing dt e (fst st))"
  have same: "g\<lparr> energy := 0 \<rparr> = e\<lparr> energy := 0 \<rparr>"
    using grazing_entity [OF dt, of e "fst st"] by (simp add: g_def)
  have ge: "energy g \<le> energy e + cellCredit dt veg0 e"
    unfolding g_def using dt le by (rule grazing_credit)
  have he: "energy (fst (hunting dt all e (snd st))) \<le> energy e + preyCredit dt all e"
    using dt by (rule hunting_credit)
  have "energy (fst (hunting dt all g (snd st))) \<le> energy g + preyCredit dt all g"
    using dt by (rule hunting_credit)
  with ge have hg: "energy (fst (hunting dt all g (snd st)))
      \<le> energy e + cellCredit dt veg0 e + preyCredit dt all e"
    by (simp add: preyCredit_same [OF same])
  show ?thesis
  proof (cases "diet e")
    case HERBIVORE
    with False ge show ?thesis
      by (simp add: feedOne_def feedCeiling_def Let_def case_prod_beta g_def)
  next
    case CARNIVORE
    with False he show ?thesis
      by (simp add: feedOne_def feedCeiling_def Let_def case_prod_beta)
  next
    case OMNIVORE
    with False hg show ?thesis
      by (simp add: feedOne_def feedCeiling_def Let_def case_prod_beta g_def)
  qed
qed

lemma feedLoop_fedFromOn:
  assumes "0 \<le> dt" "vegLe (fst st) veg0"
  shows "list_all2 (fedFromOn dt veg0 all) (fst (feedLoop dt all es st)) es"
  using assms(2)
proof (induction es arbitrary: st)
  case Nil
  then show ?case by simp
next
  case (Cons e es)
  have one: "fedFromOn dt veg0 all (fst (feedOne dt all e st)) e"
    using feedOne_ceiling [OF assms(1) Cons.prems] feedOne_fedFrom [OF assms(1)]
    by (simp add: fedFromOn_def)
  have "vegLe (fst (snd (feedOne dt all e st))) veg0"
    using feedOne_vegLe Cons.prems by (rule vegLe_trans)
  from Cons.IH [OF this] one show ?case
    by (simp only: feedLoop_Cons fst_conv list_all2_Cons simp_thms)
qed

lemma nearOther_aged: "nearOther e (ageStep dt p) = nearOther e p"
  by (simp add: nearOther_def ageStep_def)

lemma feedCeiling_aged_list:
  "feedCeiling dt veg (map (ageStep dt) es) e = feedCeiling dt veg es e"
  by (simp add: feedCeiling_def preyCredit_def list_ex_iff nearOther_aged)

lemma feedCeiling_gain:
  assumes "0 \<le> dt"
  shows "feedCeiling dt veg es e \<le> energy e + feedingGain (diet e)"
proof -
  have "cellCredit dt veg e \<le> 10" "preyCredit dt es e \<le> 50"
    using assms by (simp_all add: cellCredit_def preyCredit_def)
  then show ?thesis
    by (cases "diet e") (simp_all add: feedCeiling_def)
qed

lemma feedCeiling_noFood:
  assumes dt: "0 \<le> dt" and nf: "noFood veg es e"
  shows "feedCeiling dt veg es e \<le> energy e"
proof -
  have c: "cellCredit dt veg e \<le> 0" if "diet e = HERBIVORE \<or> diet e = OMNIVORE"
  proof (cases "0 \<le> grazeIndex e \<and> grazeIndex e < int (length veg)")
    case True
    with nf that have "\<not> veg ! nat (grazeIndex e) > grazeThreshold (type_e e)"
      by (simp add: noFood_def)
    with True have "cellCredit dt veg e = - dt" by (rule cellCredit_cases(3))
    with dt show ?thesis by simp
  next
    case False
    then have "cellCredit dt veg e = 0" by (rule cellCredit_cases(1))
    then show ?thesis by simp
  qed
  have p: "preyCredit dt es e \<le> 0" if "diet e = CARNIVORE \<or> diet e = OMNIVORE"
    using nf that dt by (simp add: noFood_def preyCredit_def)
  show ?thesis
    using c p by (cases "diet e") (simp_all add: feedCeiling_def)
qed

lemma noFood_aged: "noFood veg es (ageStep dt e) = noFood veg es e"
  by (simp add: noFood_def grazeIndex_def nearOther_def [abs_def] ageStep_def)

lemma survivor_origin:
  assumes dt: "0 \<le> dt" and a: "a \<in> set (survivors dt t es)"
  shows "\<exists>e \<in> set es. id_e a = id_e e \<and> age a = age e + dt
            \<and> energy a \<le> feedCeiling dt (vegetation t) es (ageStep dt e)
            \<and> 0 < energy a \<and> age a < 3000"
proof -
  define aged where "aged = map (ageStep dt) es"
  define fed where "fed = fst (feedLoop dt aged aged (vegetation t, []))"
  from a have af: "a \<in> set fed" and live: "0 < energy a" "age a < 3000"
    by (simp_all add: survivors_def Let_def fed_def aged_def)
  have rel: "list_all2 (fedFromOn dt (vegetation t) aged) fed aged"
    unfolding fed_def using dt by (rule feedLoop_fedFromOn) (simp add: vegLe_refl)
  from list_all2_set1 [OF rel af] obtain e' where e': "e' \<in> set aged"
    "fedFromOn dt (vegetation t) aged a e'"
    by (elim bexE)
  from e'(1) obtain e where e: "e \<in> set es" "e' = ageStep dt e"
    by (auto simp add: aged_def)
  from e'(2) have ff: "fedFrom a e'"
    and ce: "energy a \<le> feedCeiling dt (vegetation t) aged e'"
    by (simp_all add: fedFromOn_def)
  from ff have "id_e a = id_e e'" "age a = age e'" by (simp_all add: fedFrom_fields)
  with e(2) have f: "id_e a = id_e e" "age a = age e + dt"
    by (simp_all add: ageStep_def)
  from ce have "energy a \<le> feedCeiling dt (vegetation t) es (ageStep dt e)"
    by (simp only: aged_def feedCeiling_aged_list e(2))
  with e(1) live f show ?thesis by blast
qed

lemma pass_keeps_survivor_ids:
  assumes "\<forall>j. r_id (draws j) \<noteq> i"
  shows "i \<in> id_e ` set (fst (lifecyclePass dt tData draws es))
         \<longleftrightarrow> i \<in> id_e ` set (survivors dt tData es)"
proof -
  let ?S = "survivors dt tData es"
  have par: "id_e ` set (fst (reproLoop ?S draws 0 ?S)) = id_e ` set ?S"
    using reproLoop_parent_ids [of ?S draws 0 ?S] by (metis set_map)
  have bab: "i \<notin> id_e ` set (snd (reproLoop ?S draws 0 ?S))"
  proof
    assume "i \<in> id_e ` set (snd (reproLoop ?S draws 0 ?S))"
    then obtain b where b: "b \<in> set (snd (reproLoop ?S draws 0 ?S))" "id_e b = i" by auto
    from reproLoop_baby_ids [OF b(1)] obtain j where "id_e b = r_id (draws j)" by (elim exE)
    with b(2) assms show False by simp
  qed
  show ?thesis
  proof (cases "length ?S < 200")
    case True
    then have "fst (lifecyclePass dt tData draws es)
        = fst (reproLoop ?S draws 0 ?S) @ snd (reproLoop ?S draws 0 ?S)"
      by (simp add: lifecyclePass_entities)
    then have "id_e ` set (fst (lifecyclePass dt tData draws es))
        = id_e ` set ?S \<union> id_e ` set (snd (reproLoop ?S draws 0 ?S))"
      by (simp add: image_Un par)
    with bab show ?thesis by blast
  next
    case False
    then show ?thesis by (simp add: lifecyclePass_entities)
  qed
qed

text \<open>
  C2, amended. In a list of entities with distinct ids, with the ids drawn for the babies
  different from the entity's id and \<open>dt > 0\<close>:
  \<^item> every entity whose age is at least 3000 at the start of a lifecycle pass, and indeed
    every entity whose age plus \<open>dt\<close> reaches 3000, is absent (no entity carries its id)
    when the pass completes;
  \<^item> an entity is absent when the pass completes whenever the most energy that aging and
    feeding can leave it (\<open>feedCeiling\<close>) is at most 0;
  \<^item> in particular an entity whose energy is at most 0 at the start is absent if it finds
    no food in the pass (\<open>noFood\<close>), and any entity is absent if its energy minus the
    metabolic cost \<open>0.1 * dt\<close> plus the largest credit of its diet (10 for a herbivore, 50
    for a carnivore, 60 for an omnivore) is at most 0;
  \<^item> in general an entity is present after the pass exactly if it is among the survivors
    of the culling: not eaten, with positive energy after feeding and age below 3000
    after aging.
\<close>

theorem old_or_starved_entity_removed:
  assumes "e \<in> set es" and "distinct (map id_e es)" and "0 < dt"
    and "\<forall>j. r_id (draws j) \<noteq> id_e e"
  shows "(3000 \<le> age e
            \<longrightarrow> id_e e \<notin> id_e ` set (fst (lifecyclePass dt tData draws es)))
    \<and> (3000 \<le> age e + dt
            \<longrightarrow> id_e e \<notin> id_e ` set (fst (lifecyclePass dt tData draws es)))
    \<and> (feedCeiling dt (vegetation tData) es (ageStep dt e) \<le> 0
            \<longrightarrow> id_e e \<notin> id_e ` set (fst (lifecyclePass dt tData draws es)))
    \<and> (energy e \<le> 0 \<and> noFood (vegetation tData) es e
            \<longrightarrow> id_e e \<notin> id_e ` set (fst (lifecyclePass dt tData draws es)))
    \<and> (energy e - 0.1 * dt + feedingGain (diet e) \<le> 0
            \<longrightarrow> id_e e \<notin> id_e ` set (fst (lifecyclePass dt tData draws es)))
    \<and> (id_e e \<in> id_e ` set (fst (lifecyclePass dt tData draws es))
            \<longleftrightarrow> id_e e \<in> id_e ` set (survivors dt tData es))"
proof -
  let ?present = "id_e e \<in> id_e ` set (fst (lifecyclePass dt tData draws es))"
  let ?ceil = "feedCeiling dt (vegetation tData) es (ageStep dt e)"
  from assms(3) have dt: "0 \<le> dt" by simp
  have iff: "?present \<longleftrightarrow> id_e e \<in> id_e ` set (survivors dt tData es)"
    using assms(4) by (rule pass_keeps_survivor_ids)
  have bound: "age e + dt < 3000 \<and> 0 < ?ceil" if "?present"
  proof -
    from that iff obtain s where s: "s \<in> set (survivors dt tData es)" "id_e s = id_e e"
      by auto
    from survivor_origin [OF dt s(1)] obtain e0 where e0: "e0 \<in> set es" "id_e s = id_e e0"
      "age s = age e0 + dt" "energy s \<le> feedCeiling dt (vegetation tData) es (ageStep dt e0)"
      "0 < energy s" "age s < 3000"
      by (elim bexE conjE)
    from e0(2) s(2) have "id_e e0 = id_e e" by simp
    with assms(1,2) e0(1) have "e0 = e"
      by (meson distinct_map inj_onD)
    with e0 show ?thesis by simp
  qed
  have c1: "?ceil \<le> energy e - 0.1 * dt + feedingGain (diet e)"
    using feedCeiling_gain [OF dt, of "vegetation tData" es "ageStep dt e"]
    by (simp add: ageStep_def)
  have c2: "?ceil \<le> energy e - 0.1 * dt" if "noFood (vegetation tData) es e"
    using feedCeiling_noFood [OF dt, of "vegetation tData" es "ageStep dt e"] that
    by (simp add: noFood_aged) (simp add: ageStep_def)
  from bound have a: "3000 \<le> age e + dt \<longrightarrow> \<not> ?present" by auto
  from bound assms(3) have a0: "3000 \<le> age e \<longrightarrow> \<not> ?present" by auto
  from bound have b: "?ceil \<le> 0 \<longrightarrow> \<not> ?present" by auto
  from bound c2 assms(3) have c: "energy e \<le> 0 \<and> noFood (vegetation tData) es e \<longrightarrow> \<not> ?present"
    by auto
  from bound c1 have d: "energy e - 0.1 * dt + feedingGain (diet e) \<le> 0 \<longrightarrow> \<not> ?present"
    by auto
  from a0 a b c d iff show ?thesis by (intro conjI)
qed


theorem old_or_starved_entity_removed_witness:
  "oldFish \<in> set [oldFish, nearbyFish] \<and> distinct (map id_e [oldFish, nearbyFish]) \<and> (0::real) < 1
   \<and> 3000 \<le> age oldFish \<and> 3000 \<le> age oldFish + 1
   \<and> id_e oldFish \<notin> id_e ` set (fst (lifecyclePass 1 algaeTerrain stillDraws [oldFish, nearbyFish]))
   \<and> id_e oldFish \<notin> id_e ` set (survivors 1 algaeTerrain [oldFish, nearbyFish])
   \<and> energy parchedMammal \<le> 0 \<and> noFood (vegetation grazedLand) [parchedMammal] parchedMammal
   \<and> id_e parchedMammal \<notin> id_e ` set (fst (lifecyclePass 1 grazedLand stillDraws [parchedMammal]))
   \<and> energy sinkingFish - 0.1 * 1 + feedingGain (diet sinkingFish) \<le> 0
   \<and> id_e sinkingFish \<notin> id_e ` set (fst (lifecyclePass 1 algaeTerrain stillDraws [sinkingFish]))
   \<and> feedCeiling 1 (vegetation meadow) [lonelyAmphibian] (ageStep 1 lonelyAmphibian) \<le> 0
   \<and> id_e lonelyAmphibian \<notin> id_e ` set (fst (lifecyclePass 1 meadow stillDraws [lonelyAmphibian]))"
proof -
  have fresh: "\<forall>j. r_id (stillDraws j) \<noteq> id_e oldFish"
    "\<forall>j. r_id (stillDraws j) \<noteq> id_e parchedMammal"
    "\<forall>j. r_id (stillDraws j) \<noteq> id_e sinkingFish"
    "\<forall>j. r_id (stillDraws j) \<noteq> id_e lonelyAmphibian"
    by (simp_all add: stillDraws_def oldFish_def parchedMammal_def sinkingFish_def
        lonelyAmphibian_def entityAt_def)
  have d: "distinct (map id_e [oldFish, nearbyFish])"
    by (simp add: oldFish_def nearbyFish_def entityAt_def)
  have o: "3000 \<le> age oldFish" "3000 \<le> age oldFish + 1"
    by (simp_all add: oldFish_def entityAt_def)
  have m: "energy parchedMammal \<le> 0" "noFood (vegetation grazedLand) [parchedMammal] parchedMammal"
    by (simp_all add: noFood_def grazeIndex_def grazeThreshold_def parchedMammal_def entityAt_def
        grazedLand_def flatTerrain_def MAP_SIZE_def)
  have f: "energy sinkingFish - 0.1 * 1 + feedingGain (diet sinkingFish) \<le> 0"
    by (simp add: sinkingFish_def entityAt_def)
  have a: "feedCeiling 1 (vegetation meadow) [lonelyAmphibian] (ageStep 1 lonelyAmphibian) \<le> 0"
    by (simp add: feedCeiling_def cellCredit_def preyCredit_def nearOther_def grazeIndex_def
        grazeThreshold_def ageStep_def lonelyAmphibian_def entityAt_def meadow_def
        flatTerrain_def MAP_SIZE_def)
  from old_or_starved_entity_removed [of oldFish "[oldFish, nearbyFish]" 1 stillDraws algaeTerrain,
      OF _ d _ fresh(1)] o
  have r1: "id_e oldFish \<notin> id_e ` set (fst (lifecyclePass 1 algaeTerrain stillDraws [oldFish, nearbyFish]))"
    "id_e oldFish \<notin> id_e ` set (survivors 1 algaeTerrain [oldFish, nearbyFish])"
    by simp_all blast
  from old_or_starved_entity_removed [of parchedMammal "[parchedMammal]" 1 stillDraws grazedLand,
      OF _ _ _ fresh(2)] m
  have r2: "id_e parchedMammal \<notin> id_e ` set (fst (lifecyclePass 1 grazedLand stillDraws [parchedMammal]))"
    by simp
  from old_or_starved_entity_removed [of sinkingFish "[sinkingFish]" 1 stillDraws algaeTerrain,
      OF _ _ _ fresh(3)] f
  have r3: "id_e sinkingFish \<notin> id_e ` set (fst (lifecyclePass 1 algaeTerrain stillDraws [sinkingFish]))"
    by simp
  from old_or_starved_entity_removed [of lonelyAmphibian "[lonelyAmphibian]" 1 stillDraws meadow,
      OF _ _ _ fresh(4)] a
  have r4: "id_e lonelyAmphibian \<notin> id_e ` set (fst (lifecyclePass 1 meadow stillDraws [lonelyAmphibian]))"
    by simp
  from d o m f a r1 r2 r3 r4 show ?thesis by simp
qed

subsection \<open>Lifecycle pass: predation\<close>

lemma fed_reptile_run:
  "fst (lifecyclePass 1 oceanTerrain stillDraws [fedReptile, nearbyFish])
   = [fedReptile\<lparr> age := 11, energy := 5697 / 50 \<rparr>,
      fedReptile\<lparr> id_e := ''0.9'', x_e := 0, z_e := 0, isMigrating := Some False, age := 0, energy := 75 \<rparr>]"
  by (simp add: lifecyclePass_def fedReptile_def nearbyFish_def entityAt_def ageStep_def feedOne_def
      grazing_def hunting_def findPrey_def sqrt_lt_2 baby_def stillDraws_def
      oceanTerrain_def flatTerrain_def MAP_SIZE_def Let_def localCount_def)

text \<open>
  C7, as stated: of two entities within 2 units, one a carnivore below its maximal
  energy, one lifecycle tick leaves exactly one, with energy raised by 50 minus the
  metabolic cost. It does not always: a reptile with energy 140 of 150 eats the fish next
  to it, reaches 189.9, which is above 90 percent of its maximum, and reproduces; two
  entities are left and the reptile's energy is \<open>189.9 * 0.6\<close>.
\<close>

theorem fed_carnivore_reproduces_counterexample:
  "\<not> (length (fst (lifecyclePass 1 oceanTerrain stillDraws [fedReptile, nearbyFish])) = 1
      \<and> energy (hd (fst (lifecyclePass 1 oceanTerrain stillDraws [fedReptile, nearbyFish])))
          = energy fedReptile + 50 - 0.1 * 1)"
  by (simp add: fed_reptile_run)

text \<open>
  C7, amended. Take two entities with different ids within 2 units of each other, in either
  order: a carnivore with energy below its maximum, and another entity that does not hunt
  in this pass (a herbivore, or an entity whose energy after the metabolic cost is not
  below its maximum). If the carnivore stays below the age limit, ends the feeding with
  positive energy and does not reproduce (its energy after feeding is at most 90 percent
  of its maximum), then one lifecycle pass leaves exactly the carnivore, aged by \<open>dt\<close>,
  with its energy raised by 50 minus the flat metabolic cost \<open>0.1 * dt\<close>.
\<close>

theorem carnivore_eats_neighbour:
  assumes ids: "id_e a \<noteq> id_e b"
    and near: "sqrt ((x_e b - x_e a)\<^sup>2 + (z_e b - z_e a)\<^sup>2) < 2"
    and carn: "diet a = CARNIVORE"
    and hungry: "energy a < maxEnergy a"
    and dt: "0 < dt"
    and prey: "diet b = HERBIVORE \<or> maxEnergy b \<le> energy b - 0.1 * dt"
    and young: "age a + dt < 3000"
    and pos: "0 < energy a - 0.1 * dt + 50"
    and norepro: "energy a - 0.1 * dt + 50 \<le> maxEnergy a * 0.9"
    and es: "es = [a, b] \<or> es = [b, a]"
  shows "fst (lifecyclePass dt tData draws es)
         = [a\<lparr> age := age a + dt, energy := energy a - 0.1 * dt + 50 \<rparr>]"
proof -
  define a' where "a' = ageStep dt a"
  define b' where "b' = ageStep dt b"
  define a'' where "a'' = a\<lparr> age := age a + dt, energy := energy a - 0.1 * dt + 50 \<rparr>"
  have a'_f: "id_e a' = id_e a" "x_e a' = x_e a" "z_e a' = z_e a" "diet a' = CARNIVORE"
    "energy a' = energy a - 0.1 * dt" "maxEnergy a' = maxEnergy a" "age a' = age a + dt"
    by (simp_all add: a'_def ageStep_def carn)
  have b'_f: "id_e b' = id_e b" "x_e b' = x_e b" "z_e b' = z_e b" "diet b' = diet b"
    "energy b' = energy b - 0.1 * dt" "maxEnergy b' = maxEnergy b"
    by (simp_all add: b'_def ageStep_def)
  have a'_upd: "a'\<lparr> energy := en \<rparr> = a\<lparr> age := age a + dt, energy := en \<rparr>" for en
    by (simp add: a'_def ageStep_def)
  have hungry': "\<not> maxEnergy a' \<le> energy a'"
    using hungry dt by (simp add: a'_f)
  \<comment> \<open>the prey does not hunt; whatever it does leaves \<open>consumedIds\<close> alone\<close>
  have b_feed: "snd (snd (feedOne dt all b' (veg, c))) = c
               \<and> id_e (fst (feedOne dt all b' (veg, c))) = id_e b" for all veg c
  proof (cases "maxEnergy b' \<le> energy b'")
    case True
    then show ?thesis by (simp add: feedOne_def b'_f)
  next
    case False
    with prey have h: "diet b' = HERBIVORE" by (simp add: b'_f)
    have "id_e (fst (grazing dt b' veg)) = id_e b'"
      by (simp add: grazing_def Let_def)
    with False h show ?thesis
      by (simp add: feedOne_def Let_def case_prod_beta b'_f)
  qed
  have a_feed_ab: "feedOne dt [a', b'] a' (veg, []) = (a'', veg, [id_e b])" for veg
    using hungry' ids near
    by (simp add: feedOne_def hunting_def findPrey_def a'_f b'_f a'_upd a''_def Let_def)
  have a_feed_ba: "feedOne dt [b', a'] a' (veg, []) = (a'', veg, [id_e b])" for veg
    using hungry' ids near
    by (simp add: feedOne_def hunting_def findPrey_def a'_f b'_f a'_upd a''_def Let_def)
  have a''_f: "id_e a'' = id_e a" "0 < energy a''" "age a'' < 3000"
    "\<not> energy a'' > maxEnergy a'' * 0.9"
    using pos young norepro by (simp_all add: a''_def)
  have surv: "survivors dt tData es = [a'']"
  proof -
    from es show ?thesis
    proof
      assume "es = [a, b]"
      then have "survivors dt tData es =
        filter (\<lambda>e. energy e > 0 \<and> age e < 3000)
          (filter (\<lambda>e. id_e e \<notin> set (snd (snd (feedLoop dt [a', b'] [a', b'] (vegetation tData, [])))))
             (fst (feedLoop dt [a', b'] [a', b'] (vegetation tData, []))))"
        by (simp add: survivors_def Let_def a'_def b'_def)
      also have "feedLoop dt [a', b'] [a', b'] (vegetation tData, [])
        = ([a'', fst (feedOne dt [a', b'] b' (vegetation tData, [id_e b]))],
           snd (feedOne dt [a', b'] b' (vegetation tData, [id_e b])))"
        by (simp add: a_feed_ab case_prod_beta Let_def)
      finally show ?thesis
        using b_feed [of "[a', b']" "vegetation tData" "[id_e b]"] a''_f ids
        by simp
    next
      assume "es = [b, a]"
      then have s: "survivors dt tData es =
        filter (\<lambda>e. energy e > 0 \<and> age e < 3000)
          (filter (\<lambda>e. id_e e \<notin> set (snd (snd (feedLoop dt [b', a'] [b', a'] (vegetation tData, [])))))
             (fst (feedLoop dt [b', a'] [b', a'] (vegetation tData, []))))"
        by (simp add: survivors_def Let_def a'_def b'_def)
      define r where "r = feedOne dt [b', a'] b' (vegetation tData, [])"
      have r: "snd (snd r) = []" "id_e (fst r) = id_e b"
        using b_feed [of "[b', a']" "vegetation tData" "[]"] by (simp_all add: r_def)
      then have r': "snd r = (fst (snd r), [])" by (metis prod.collapse)
      have "feedLoop dt [b', a'] [b', a'] (vegetation tData, [])
        = ([fst r, a''], fst (snd r), [id_e b])"
        using a_feed_ba [of "fst (snd r)"] r'
        by (simp add: case_prod_beta Let_def r_def [symmetric])
      with s r a''_f ids show ?thesis by simp
    qed
  qed
  have "fst (lifecyclePass dt tData draws es) = [a'']"
    using a''_f
    by (simp add: lifecyclePass_entities surv reproLoop_Cons reproduces_def
        del: reproLoop.simps(2))
  then show ?thesis by (simp only: a''_def)
qed

theorem carnivore_eats_neighbour_witness:
  "id_e hungryReptile \<noteq> id_e nearbyFish
   \<and> sqrt ((x_e nearbyFish - x_e hungryReptile)\<^sup>2 + (z_e nearbyFish - z_e hungryReptile)\<^sup>2) < 2
   \<and> diet hungryReptile = CARNIVORE \<and> energy hungryReptile < maxEnergy hungryReptile
   \<and> diet nearbyFish = HERBIVORE \<and> age hungryReptile + 1 < 3000
   \<and> 0 < energy hungryReptile - 0.1 * 1 + 50
   \<and> energy hungryReptile - 0.1 * 1 + 50 \<le> maxEnergy hungryReptile * 0.9
   \<and> fst (lifecyclePass 1 algaeTerrain stillDraws [nearbyFish, hungryReptile])
       = [hungryReptile\<lparr> age := 11, energy := 1099 / 10 \<rparr>]"
proof -
  have h: "id_e hungryReptile \<noteq> id_e nearbyFish"
    "sqrt ((x_e nearbyFish - x_e hungryReptile)\<^sup>2 + (z_e nearbyFish - z_e hungryReptile)\<^sup>2) < 2"
    "diet hungryReptile = CARNIVORE" "energy hungryReptile < maxEnergy hungryReptile"
    "(0::real) < 1"
    "diet nearbyFish = HERBIVORE \<or> maxEnergy nearbyFish \<le> energy nearbyFish - 0.1 * 1"
    "age hungryReptile + 1 < 3000"
    "0 < energy hungryReptile - 0.1 * 1 + 50"
    "energy hungryReptile - 0.1 * 1 + 50 \<le> maxEnergy hungryReptile * 0.9"
    by (simp_all add: hungryReptile_def nearbyFish_def entityAt_def)
  have d: "diet nearbyFish = HERBIVORE" by (simp add: nearbyFish_def entityAt_def)
  from carnivore_eats_neighbour [of hungryReptile nearbyFish 1 "[nearbyFish, hungryReptile]"
      algaeTerrain stillDraws, OF h]
  have "fst (lifecyclePass 1 algaeTerrain stillDraws [nearbyFish, hungryReptile])
       = [hungryReptile\<lparr> age := 11, energy := 1099 / 10 \<rparr>]"
    by (simp add: hungryReptile_def entityAt_def)
  with h d show ?thesis by simp
qed

subsection \<open>Population cap\<close>

lemma spawn_within_cap: "length prev \<le> 200 \<Longrightarrow> length (spawn dt tData unlocked d prev) \<le> 200"
  by (auto simp add: spawn_def Let_def split: option.splits)

lemma feedLoop_map:
  assumes "\<And>e. e \<in> set es \<Longrightarrow> feedOne dt all e st = (g e, st)"
  shows "feedLoop dt all es st = (map g es, st)"
  using assms by (induction es) (simp_all add: feedLoop_Cons del: feedLoop.simps(2))

lemma reproLoop_lengths:
  "length (fst (reproLoop all draws i ps)) = length ps
   \<and> length (snd (reproLoop all draws i ps)) = length (filter (reproduces all) ps)"
  by (induction ps arbitrary: i) (simp_all add: reproLoop_Cons del: reproLoop.simps(2))

lemma aged_fish:
  "ageStep 1 (schoolFish i) = (schoolFish i)\<lparr> age := 11, energy := 499 / 10 \<rparr>"
  by (simp add: ageStep_def schoolFish_def entityAt_def)

lemma feed_fish:
  "feedOne 1 all (ageStep 1 (schoolFish i)) (vegetation bareIsland, [])
   = (fedOnBare (ageStep 1 (schoolFish i)), vegetation bareIsland, [])"
  by (simp add: feedOne_def grazing_def fedOnBare_def ageStep_def schoolFish_def entityAt_def
      bareIsland_def MAP_SIZE_def Let_def)

lemma feed_herd:
  "e \<in> set herd \<Longrightarrow>
   feedOne 1 all (ageStep 1 e) (vegetation bareIsland, [])
   = (fedOnBare (ageStep 1 e), vegetation bareIsland, [])"
  by (auto simp add: herd_def feedOne_def fedOnBare_def ageStep_def entityAt_def)

lemma feed_crowd:
  "feedLoop 1 all (map (ageStep 1) crowd) (vegetation bareIsland, [])
   = (map fedOnBare (map (ageStep 1) crowd), vegetation bareIsland, [])"
  by (rule feedLoop_map) (auto simp add: crowd_def feed_fish feed_herd)

lemma fed_crowd: "map fedOnBare (map (ageStep 1) crowd) = map fedFish [0..<195] @ fedHerd"
  by (simp add: crowd_def fedFish_def fedHerd_def herd_def fedOnBare_def ageStep_def
      schoolFish_def entityAt_def)

lemma fed_crowd_comp: "map (fedOnBare \<circ> ageStep 1) crowd = map fedFish [0..<195] @ fedHerd"
  using fed_crowd by simp

lemma survivors_crowd: "survivors 1 bareIsland crowd = map fedFish [0..<195] @ fedHerd"
proof -
  have alive: "\<forall>e \<in> set (map fedFish [0..<195] @ fedHerd). energy e > 0 \<and> age e < 3000"
    by (auto simp add: fedFish_def fedHerd_def herd_def schoolFish_def entityAt_def)
  have "survivors 1 bareIsland crowd
        = filter (\<lambda>e. energy e > 0 \<and> age e < 3000) (map fedFish [0..<195] @ fedHerd)"
    by (simp add: survivors_def Let_def feed_crowd fed_crowd_comp del: map_append)
  also have "\<dots> = map fedFish [0..<195] @ fedHerd"
    using alive by (simp only: filter_id_conv)
  finally show ?thesis .
qed

lemma fish_not_reproducing: "\<not> reproduces all (fedFish i)"
  by (simp add: reproduces_def fedFish_def schoolFish_def entityAt_def)

lemma herd_reproducing:
  "p \<in> set fedHerd \<Longrightarrow> reproduces (map fedFish [0..<195] @ fedHerd) p"
  by (auto simp add: reproduces_def localCount_def fedHerd_def herd_def fedFish_def
      schoolFish_def entityAt_def filter_map o_def)

lemma reproducing_crowd:
  "filter (reproduces (map fedFish [0..<195] @ fedHerd)) (map fedFish [0..<195] @ fedHerd) = fedHerd"
proof -
  have "filter (reproduces (map fedFish [0..<195] @ fedHerd)) (map fedFish [0..<195]) = []"
    by (simp add: filter_empty_conv fish_not_reproducing)
  moreover have "filter (reproduces (map fedFish [0..<195] @ fedHerd)) fedHerd = fedHerd"
    by (simp only: filter_id_conv) (simp add: herd_reproducing)
  ultimately show ?thesis by simp
qed

text \<open>
  C1. The claim: from at most 200 entities, one lifecycle tick (spawning, then aging,
  feeding, culling and reproduction) leaves at most 200. Spawning keeps the cap
  (\<open>spawn_within_cap\<close>: the list is cut to 200), reproduction does not: its guard only
  asks for fewer than 200 survivors and the babies are appended uncut. From the 199
  entities of \<open>crowd\<close> the tick returns 203: all survive, and each of the four mammals has
  energy above 90 percent of its maximum and fewer than 10 neighbours, so each has a baby.
\<close>

theorem reproduction_exceeds_cap:
  "length crowd = 199
   \<and> length (lifeTickEntities 1 bareIsland (map id_n EVOLUTION_TREE) noSpawn stillDraws crowd) = 203"
proof -
  have len: "length crowd = 199" by (simp add: crowd_def herd_def)
  have sp: "spawn 1 bareIsland (map id_n EVOLUTION_TREE) noSpawn crowd = crowd"
    by (simp add: spawn_def len noSpawn_def Let_def)
  let ?S = "map fedFish [0..<195] @ fedHerd"
  have lenS: "length ?S = 199" by (simp add: fedHerd_def herd_def)
  have c: "length ?S < 200" by (simp only: lenS)
  have e: "fst (lifecyclePass 1 bareIsland stillDraws crowd)
           = fst (reproLoop ?S stillDraws 0 ?S) @ snd (reproLoop ?S stillDraws 0 ?S)"
    unfolding lifecyclePass_entities survivors_crowd using c by (rule if_P)
  have p: "length (fst (reproLoop ?S stillDraws 0 ?S)) = 199"
    using reproLoop_lengths [of ?S stillDraws 0 ?S] by (simp only: lenS)
  have b: "length (snd (reproLoop ?S stillDraws 0 ?S)) = 4"
    using reproLoop_lengths [of ?S stillDraws 0 ?S]
    by (simp only: reproducing_crowd) (simp add: fedHerd_def herd_def)
  have "length (fst (lifecyclePass 1 bareIsland stillDraws crowd)) = 203"
    by (simp only: e length_append p b)
  then show ?thesis by (simp add: lifeTickEntities_def sp len)
qed

end
